theory Spec2Isabelle
  imports Complex_Main
begin

section \<open>Inference orchestration of the chat-driven code generator\<close>

text \<open>
  A shallow embedding of the TypeScript sources: the API error handler
  (\<^verbatim>\<open>apiErrorHandler.ts\<close>), the local inference gate (\<^verbatim>\<open>localInference.ts\<close>), the
  model loader and resource manager, the chat controller's session store, the chat
  service, the code generator and the response post-processor.

  Conventions. A JavaScript exception is the \<open>Inl\<close> branch of a sum. Mutable fields of a
  class are a record that a method takes and returns. What a method obtains from a
  collaborator that is outside the modelled code (the wall clock, \<^verbatim>\<open>Math.random\<close>,
  \<^verbatim>\<open>uuidv4\<close>, the file system, the remote API) is a parameter. JavaScript numbers that
  hold counters, HTTP status codes and timestamps are integers; the backoff delays computed
  from \<^verbatim>\<open>Math.random\<close> are real numbers, without the rounding of doubles; the number
  that \<^verbatim>\<open>parseInt\<close> reads and its product with 1000 are rounded as doubles are. Strings
  are lists of characters.
\<close>

subsection \<open>Strings\<close>

text \<open>\<^verbatim>\<open>String(n)\<close> for an integer \<open>n\<close>, as a template literal prints it.\<close>

definition digit_char :: "nat \<Rightarrow> char" where
  "digit_char d = ''0123456789'' ! d"

function string_of_nat :: "nat \<Rightarrow> string" where
  "string_of_nat n =
     (if n < 10 then [digit_char n] else string_of_nat (n div 10) @ [digit_char (n mod 10)])"
  by pat_completeness auto
termination
  by (relation "measure id") auto

declare string_of_nat.simps [simp del]

definition string_of_int :: "int \<Rightarrow> string" where
  "string_of_int i = (if i < 0 then CHR ''-'' # string_of_nat (nat (- i)) else string_of_nat (nat i))"

text \<open>
  The white space of ECMAScript that fits in a byte: tab, line feed, vertical tab, form
  feed, carriage return, space and the no-break space. \<^verbatim>\<open>\s\<close>, \<^verbatim>\<open>trim\<close> and \<^verbatim>\<open>parseInt\<close>
  all use this class.
\<close>

definition is_space :: "char \<Rightarrow> bool" where
  "is_space c \<longleftrightarrow> c \<in> set [CHR 0x09, CHR 0x0A, CHR 0x0B, CHR 0x0C, CHR 0x0D, CHR '' '', CHR 0xA0]"

definition is_digit :: "char \<Rightarrow> bool" where
  "is_digit c \<longleftrightarrow> c \<in> set ''0123456789''"

text \<open>\<^verbatim>\<open>\w\<close>: ASCII letters, digits and the underscore.\<close>

definition is_word :: "char \<Rightarrow> bool" where
  "is_word c \<longleftrightarrow>
     c \<in> set ''abcdefghijklmnopqrstuvwxyzABCDEFGHIJKLMNOPQRSTUVWXYZ0123456789_''"

definition trimStart :: "string \<Rightarrow> string" where
  "trimStart s = dropWhile is_space s"

definition trimEnd :: "string \<Rightarrow> string" where
  "trimEnd s = rev (dropWhile is_space (rev s))"

definition trim :: "string \<Rightarrow> string" where
  "trim s = trimEnd (trimStart s)"

definition digit_val :: "char \<Rightarrow> nat" where
  "digit_val c = of_char c - 48"

fun digits_val :: "nat \<Rightarrow> string \<Rightarrow> nat" where
  "digits_val acc [] = acc"
| "digits_val acc (c # cs) = digits_val (10 * acc + digit_val c) cs"

text \<open>
  A JavaScript number is a double: \<^verbatim>\<open>NaN\<close>, one of the two infinities, or a finite value,
  kept as a real number. Zero and negative zero are not told apart.
\<close>

datatype js_number = Num real | NaN | Infinity | NegInfinity

text \<open>
  The double that is nearest to an integer, a tie going to the even significand. A
  double has 53 significant bits: of an integer of more bits the lowest \<open>e\<close> bits are
  rounded off, and a result of \<open>2 ^ 1024\<close> or more is an infinity.
\<close>

fun bit_length :: "nat \<Rightarrow> nat" where
  "bit_length n = (if n = 0 then 0 else Suc (bit_length (n div 2)))"

declare bit_length.simps [simp del]

definition nearest_double :: "int \<Rightarrow> js_number" where
  "nearest_double i =
     (let a = nat \<bar>i\<bar>;
          e = bit_length a - 53;
          q = a div 2 ^ e;
          r = a mod 2 ^ e;
          q = (if 2 * r > 2 ^ e \<or> (2 * r = 2 ^ e \<and> odd q) then q + 1 else q);
          v = q * 2 ^ e
      in if v \<ge> 2 ^ 1024 then (if i < 0 then NegInfinity else Infinity)
         else Num (if i < 0 then - real v else real v))"

text \<open>
  The product \<^verbatim>\<open>x * k\<close> of a number \<open>x\<close> that holds an integer and a positive integer
  constant \<open>k\<close>: the exact product, rounded to the nearest double.
\<close>

definition int_times :: "js_number \<Rightarrow> int \<Rightarrow> js_number" where
  "int_times x k =
     (case x of
        Num v \<Rightarrow> nearest_double (\<lfloor>v\<rfloor> * k)
      | NaN \<Rightarrow> NaN
      | Infinity \<Rightarrow> Infinity
      | NegInfinity \<Rightarrow> NegInfinity)"

text \<open>
  \<^verbatim>\<open>parseInt(s, 10)\<close>: leading white space is skipped, one sign is accepted, then the
  longest run of decimal digits is read and the rest is ignored. No digit gives
  \<^verbatim>\<open>NaN\<close>; otherwise the result is the double nearest to the integer that was read
  (ECMAScript lets an implementation ignore the digits after the twentieth; here none
  is ignored).
\<close>

definition parseInt :: "string \<Rightarrow> js_number" where
  "parseInt s =
     (let t = trimStart s;
          neg = (t \<noteq> [] \<and> hd t = CHR ''-'');
          u = (if t \<noteq> [] \<and> (hd t = CHR ''-'' \<or> hd t = CHR ''+'') then tl t else t);
          ds = takeWhile is_digit u
      in if ds = [] then NaN
         else nearest_double (if neg then - int (digits_val 0 ds) else int (digits_val 0 ds)))"

subsection \<open>Error classification (\<^verbatim>\<open>APIErrorHandler.categorizeError\<close>)\<close>

datatype APIErrorType =
  Network | Timeout | Rate_limit | Authentication | Bad_request | Server | Unknown

record APIErrorDetails =
  type :: APIErrorType
  status :: "int option"
  message :: string
  retryable :: bool

text \<open>
  The part of an Axios response that the handler reads: the HTTP status and the headers
  (Axios lower-cases header names). The payload \<^verbatim>\<open>data\<close> is only copied into
  \<^verbatim>\<open>errorData\<close> and is left out, as is \<^verbatim>\<open>errorData\<close> itself.
\<close>

record AxiosResponse =
  resp_status :: int
  headers :: "string \<rightharpoonup> string"

text \<open>
  What an operation can throw: an Axios error (with or without a response, with its
  \<^verbatim>\<open>code\<close> and \<^verbatim>\<open>message\<close>), another \<^verbatim>\<open>Error\<close> with its message, or any other value,
  given by its \<^verbatim>\<open>String(...)\<close> image.
\<close>

datatype js_error =
  AxiosError "AxiosResponse option" "string option" string
| OtherError string
| Thrown string

definition unknown_details :: "string \<Rightarrow> APIErrorDetails" where
  "unknown_details m = \<lparr>type = Unknown, status = None, message = m, retryable = False\<rparr>"

fun categorizeError :: "js_error \<Rightarrow> APIErrorDetails" where
  "categorizeError (AxiosError None code msg) =
     \<lparr>type = Network, status = None, message = ''Network error occurred'', retryable = True\<rparr>"
| "categorizeError (AxiosError (Some response) code msg) =
     (let st = resp_status response in
      if st = 408 \<or> code = Some ''ECONNABORTED'' then
        \<lparr>type = Timeout, status = Some st, message = ''Request timed out'', retryable = True\<rparr>
      else if st = 429 then
        \<lparr>type = Rate_limit, status = Some st, message = ''Rate limit exceeded'', retryable = True\<rparr>
      else if st = 401 \<or> st = 403 then
        \<lparr>type = Authentication, status = Some st, message = ''Authentication failed'',
         retryable = False\<rparr>
      else if st \<ge> 400 \<and> st < 500 then
        \<lparr>type = Bad_request, status = Some st, message = ''Bad request: '' @ msg,
         retryable = False\<rparr>
      else if st \<ge> 500 then
        \<lparr>type = Server, status = Some st, message = ''Server error: '' @ msg, retryable = True\<rparr>
      else unknown_details msg)"
| "categorizeError (OtherError msg) = unknown_details msg"
| "categorizeError (Thrown str) = unknown_details str"

definition shouldRetry :: "js_error \<Rightarrow> bool" where
  "shouldRetry error = retryable (categorizeError error)"

subsection \<open>Backoff and retry (\<^verbatim>\<open>APIErrorHandler.retry\<close>)\<close>

definition BASE_DELAY :: real where "BASE_DELAY = 1000"
definition MAX_DELAY :: real where "MAX_DELAY = 10000"

text \<open>
  \<^verbatim>\<open>calculateBackoff(attempt)\<close>; the second argument is the value that \<^verbatim>\<open>Math.random()\<close>
  returns in the call, a number in \<open>[0, 1)\<close>.
\<close>

definition calculateBackoff :: "nat \<Rightarrow> real \<Rightarrow> real" where
  "calculateBackoff attempt random =
     (let exponentialDelay = min MAX_DELAY (BASE_DELAY * 2 ^ attempt);
          jitter = (random * 0.6) - 0.3;
          delay = exponentialDelay * (1 + jitter)
      in min MAX_DELAY (max BASE_DELAY delay))"

text \<open>
  The delay chosen after a retryable failure (lines 204 to 211 of the handler): the
  backoff, replaced by \<^verbatim>\<open>parseInt(retryAfter, 10) * 1000\<close> when the failure is a rate
  limit with a response and the \<^verbatim>\<open>retry-after\<close> header is a non-empty string.
\<close>

definition retryDelay :: "js_error \<Rightarrow> nat \<Rightarrow> real \<Rightarrow> js_number" where
  "retryDelay error attempt random =
     (let delayMs = Num (calculateBackoff attempt random) in
      case error of
        AxiosError (Some response) code msg \<Rightarrow>
          if type (categorizeError error) = Rate_limit then
            (case headers response ''retry-after'' of
               None \<Rightarrow> delayMs
             | Some retryAfter \<Rightarrow>
                 if retryAfter \<noteq> [] then int_times (parseInt retryAfter) 1000
                 else delayMs)
          else delayMs
      | _ \<Rightarrow> delayMs)"

text \<open>
  What a call of \<^verbatim>\<open>retry\<close> did: its result (\<open>Inl\<close> the message of the \<^verbatim>\<open>Error\<close> it
  threw), how many times it invoked the operation, and the delays it passed to
  \<^verbatim>\<open>delay\<close>, in order.
\<close>

record 'a retry_result =
  outcome :: "string + 'a"
  calls :: nat
  delays :: "js_number list"

text \<open>The code after the loop: the last error is categorised again and wrapped.\<close>

definition retry_throw :: "int \<Rightarrow> js_error option \<Rightarrow> nat \<Rightarrow> js_number list \<Rightarrow> 'a retry_result" where
  "retry_throw maxRetries lastError n slept =
     (let finalError = categorizeError (case lastError of None \<Rightarrow> Thrown ''undefined'' | Some e \<Rightarrow> e)
      in \<lparr>outcome = Inl (''API request failed after '' @ string_of_int (maxRetries + 1)
                          @ '' attempts: '' @ message finalError),
          calls = n, delays = slept\<rparr>)"

text \<open>
  The loop \<^verbatim>\<open>for (attempt = 0; attempt <= maxRetries; attempt++)\<close>. The operation
  \<^verbatim>\<open>fn\<close> is given by the outcome of each of its invocations, \<open>fn k\<close> for the one made in
  attempt \<open>k\<close>, and \<open>random k\<close> is the draw of \<^verbatim>\<open>Math.random\<close> in attempt \<open>k\<close>.
\<close>

function retry_loop ::
  "(nat \<Rightarrow> js_error + 'a) \<Rightarrow> (nat \<Rightarrow> real) \<Rightarrow> int \<Rightarrow> nat \<Rightarrow> js_error option \<Rightarrow> js_number list
     \<Rightarrow> 'a retry_result" where
  "retry_loop fn random maxRetries attempt lastError slept =
     (if int attempt \<le> maxRetries then
        (case fn attempt of
           Inr v \<Rightarrow> \<lparr>outcome = Inr v, calls = attempt + 1, delays = slept\<rparr>
         | Inl error \<Rightarrow>
             if \<not> retryable (categorizeError error) \<or> int attempt \<ge> maxRetries then
               retry_throw maxRetries (Some error) (attempt + 1) slept
             else
               retry_loop fn random maxRetries (attempt + 1) (Some error)
                 (slept @ [retryDelay error attempt (random attempt)]))
      else retry_throw maxRetries lastError attempt slept)"
  by pat_completeness auto
termination
  by (relation "measure (\<lambda>(fn, random, maxRetries, attempt, lastError, slept).
        nat (maxRetries + 1 - int attempt))") auto

declare retry_loop.simps [simp del]

definition retry :: "(nat \<Rightarrow> js_error + 'a) \<Rightarrow> (nat \<Rightarrow> real) \<Rightarrow> int \<Rightarrow> 'a retry_result" where
  "retry fn random maxRetries = retry_loop fn random maxRetries 0 None []"

text \<open>
  The expected delay. \<^verbatim>\<open>Math.random()\<close> is uniform on \<open>[0, 1)\<close>, so the expectation of
  a continuous function \<open>f\<close> of the draw is its integral over the unit interval, which
  is \<open>F 1 - F 0\<close> for an antiderivative \<open>F\<close> of \<open>f\<close>. \<open>backoff_integral e\<close> is an
  antiderivative of the clamped delay when the exponential delay is \<open>e\<close>.
\<close>

definition mean_on_unit :: "(real \<Rightarrow> real) \<Rightarrow> real \<Rightarrow> bool" where
  "mean_on_unit f m \<longleftrightarrow> (\<exists>F. (\<forall>u. (F has_real_derivative f u) (at u)) \<and> m = F 1 - F 0)"

definition backoff_integral :: "real \<Rightarrow> real \<Rightarrow> real" where
  "backoff_integral e u =
     ((1000 + 10000) * u
      + (0.7 * e + 0.6 * e * u - 1000) * \<bar>0.7 * e + 0.6 * e * u - 1000\<bar> / 2 / (0.6 * e)
      - (0.7 * e + 0.6 * e * u - 10000) * \<bar>0.7 * e + 0.6 * e * u - 10000\<bar> / 2 / (0.6 * e)) / 2"

text \<open>The verdict of the classifier on an error: its category and whether it is retried.\<close>

definition verdict :: "js_error \<Rightarrow> APIErrorType \<times> bool" where
  "verdict e = (type (categorizeError e), retryable (categorizeError e))"

text \<open>Invocation \<open>k\<close> of the operation throws, and the classifier puts the error in \<open>T\<close>.\<close>

definition fails_with :: "(nat \<Rightarrow> js_error + 'a) \<Rightarrow> nat \<Rightarrow> APIErrorType set \<Rightarrow> bool" where
  "fails_with fn k T = (case fn k of Inl e \<Rightarrow> type (categorizeError e) \<in> T | Inr v \<Rightarrow> False)"

subsection \<open>Errors and operations for the examples\<close>


definition http_failure :: "int \<Rightarrow> js_error" where
  "http_failure st = AxiosError (Some \<lparr>resp_status = st, headers = Map.empty\<rparr>) None ''Request failed''"

text \<open>
  Operations for the examples, by the outcome of their invocations: one that throws
  the given error in its first \<open>n\<close> invocations and returns \<^verbatim>\<open>"ok"\<close> afterwards, and one
  that always throws it. \<open>no_jitter\<close> is a \<^verbatim>\<open>Math.random\<close> that returns 0 every time.
\<close>

definition fails_first :: "nat \<Rightarrow> js_error \<Rightarrow> nat \<Rightarrow> js_error + string" where
  "fails_first n e k = (if k < n then Inl e else Inr ''ok'')"

definition always_fails :: "js_error \<Rightarrow> nat \<Rightarrow> js_error + string" where
  "always_fails e k = Inl e"

definition no_jitter :: "nat \<Rightarrow> real" where
  "no_jitter k = 0"

subsection \<open>Responses (\<^verbatim>\<open>llmResponse.ts\<close>, \<^verbatim>\<open>llmRequest.ts\<close>)\<close>

datatype FinishReason = FR_stop | FR_length | FR_content_filter | FR_timeout | FR_error

datatype Role = User | Assistant | System

record ConversationMessage =
  cm_role :: Role
  cm_content :: string
  cm_timestamp :: "int option"

text \<open>
  \<^verbatim>\<open>LLMResponse\<close> and its extension \<^verbatim>\<open>ChatLLMResponse\<close>. An optional field that is absent
  is \<open>None\<close>. The fields \<^verbatim>\<open>tokenUsage\<close>, \<^verbatim>\<open>model\<close> and \<^verbatim>\<open>timestamp\<close>, which nothing
  below reads, are left out.
\<close>

record LLMResponse =
  generatedText :: string
  error :: "string option"
  finishReason :: "FinishReason option"
  requestId :: string
  latency :: "int option"

record ChatLLMResponse = LLMResponse +
  updatedConversation :: "ConversationMessage list"
  sourceType :: string

text \<open>
  \<^verbatim>\<open>CodeLLMResponse\<close>; its field \<^verbatim>\<open>language\<close> is \<open>code_language\<close>. The fields \<^verbatim>\<open>references\<close>,
  \<^verbatim>\<open>suggestedImports\<close> and \<^verbatim>\<open>confidenceScore\<close>, which nothing sets, are left out.
\<close>

record CodeLLMResponse = LLMResponse +
  code_language :: string
  explanation :: "string option"

subsection \<open>The local inference gate (\<^verbatim>\<open>LocalInference\<close>)\<close>

record LocalInference =
  inferenceCount :: int
  activeInferences :: int

definition MAX_CONCURRENT_INFERENCES :: int where
  "MAX_CONCURRENT_INFERENCES = 4"

definition busy_message :: string where
  "busy_message = ''Maximum concurrent inferences limit reached. Please try again later.''"

text \<open>
  \<^verbatim>\<open>runInference\<close> is an \<^verbatim>\<open>async\<close> method. It runs without interruption from its entry to
  its first \<^verbatim>\<open>await\<close>: the counter of requests is incremented, the limit is tested, and
  either the busy response is returned or \<^verbatim>\<open>activeInferences\<close> is incremented and the
  method suspends inside \<^verbatim>\<open>try\<close>. \<open>runInference_enter\<close> is that segment; it returns the
  response when the call is over at once.

  While the method is suspended other calls may run. When the body of \<^verbatim>\<open>try\<close> is over,
  with the generated text (\<open>Inr\<close>) or with an exception (\<open>Inl\<close> its message, from loading
  the model, loading the configuration or \<^verbatim>\<open>getModel\<close>), the response is built and the
  \<^verbatim>\<open>finally\<close> block decrements \<^verbatim>\<open>activeInferences\<close>. \<open>runInference_leave\<close> is that segment;
  \<open>elapsed\<close> is \<^verbatim>\<open>Date.now() - startTime\<close>.
\<close>

definition runInference_enter :: "string \<Rightarrow> LocalInference \<Rightarrow> LLMResponse option \<times> LocalInference" where
  "runInference_enter rid this =
     (let this = this\<lparr>inferenceCount := inferenceCount this + 1\<rparr> in
      if activeInferences this \<ge> MAX_CONCURRENT_INFERENCES then
        (Some \<lparr>generatedText = [], error = Some busy_message, finishReason = Some FR_error,
                requestId = rid, latency = Some 0\<rparr>, this)
      else (None, this\<lparr>activeInferences := activeInferences this + 1\<rparr>))"

definition runInference_leave ::
  "string \<Rightarrow> int \<Rightarrow> string + string \<Rightarrow> LocalInference \<Rightarrow> LLMResponse \<times> LocalInference" where
  "runInference_leave rid elapsed body this =
     (let response =
        (case body of
           Inr text \<Rightarrow>
             \<lparr>generatedText = text, error = None, finishReason = Some FR_stop,
              requestId = rid, latency = Some elapsed\<rparr>
         | Inl msg \<Rightarrow>
             \<lparr>generatedText = [], error = Some (''Local inference failed: '' @ msg),
              finishReason = Some FR_error, requestId = rid, latency = Some elapsed\<rparr>)
      in (response, this\<lparr>activeInferences := activeInferences this - 1\<rparr>))"

text \<open>The whole call when nothing else runs in between.\<close>

definition runInference ::
  "string \<Rightarrow> int \<Rightarrow> string + string \<Rightarrow> LocalInference \<Rightarrow> LLMResponse \<times> LocalInference" where
  "runInference rid elapsed body this =
     (case runInference_enter rid this of
        (Some response, this') \<Rightarrow> (response, this')
      | (None, this') \<Rightarrow> runInference_leave rid elapsed body this')"

text \<open>
  \<^verbatim>\<open>runChatInference\<close> has the same shape. \<open>history\<close> is the request's
  \<^verbatim>\<open>conversationHistory\<close> and \<open>now\<close> the time stamp of the appended assistant message.
\<close>

definition runChatInference_enter ::
  "string \<Rightarrow> ConversationMessage list \<Rightarrow> LocalInference \<Rightarrow> ChatLLMResponse option \<times> LocalInference" where
  "runChatInference_enter rid history this =
     (let this = this\<lparr>inferenceCount := inferenceCount this + 1\<rparr> in
      if activeInferences this \<ge> MAX_CONCURRENT_INFERENCES then
        (Some \<lparr>generatedText = [], error = Some busy_message, finishReason = Some FR_error,
                requestId = rid, latency = Some 0, updatedConversation = history,
                sourceType = ''local''\<rparr>, this)
      else (None, this\<lparr>activeInferences := activeInferences this + 1\<rparr>))"

definition runChatInference_leave ::
  "string \<Rightarrow> ConversationMessage list \<Rightarrow> int \<Rightarrow> int \<Rightarrow> string + string \<Rightarrow> LocalInference
     \<Rightarrow> ChatLLMResponse \<times> LocalInference" where
  "runChatInference_leave rid history elapsed now body this =
     (let response =
        (case body of
           Inr text \<Rightarrow>
             \<lparr>generatedText = text, error = None, finishReason = Some FR_stop,
              requestId = rid, latency = Some elapsed,
              updatedConversation =
                history @ [\<lparr>cm_role = Assistant, cm_content = text, cm_timestamp = Some now\<rparr>],
              sourceType = ''local''\<rparr>
         | Inl msg \<Rightarrow>
             \<lparr>generatedText = [], error = Some (''Local chat inference failed: '' @ msg),
              finishReason = Some FR_error, requestId = rid, latency = Some elapsed,
              updatedConversation = history, sourceType = ''local''\<rparr>)
      in (response, this\<lparr>activeInferences := activeInferences this - 1\<rparr>))"

definition runChatInference ::
  "string \<Rightarrow> ConversationMessage list \<Rightarrow> int \<Rightarrow> int \<Rightarrow> string + string \<Rightarrow> LocalInference
     \<Rightarrow> ChatLLMResponse \<times> LocalInference" where
  "runChatInference rid history elapsed now body this =
     (case runChatInference_enter rid history this of
        (Some response, this') \<Rightarrow> (response, this')
      | (None, this') \<Rightarrow> runChatInference_leave rid history elapsed now body this')"

text \<open>
  Calls that overlap. The state of the system is the singleton \<^verbatim>\<open>LocalInference\<close> and
  the calls that are suspended between their two segments. A step either starts a call
  or completes one of the suspended calls.
\<close>

datatype invocation = Completion string | Chat string "ConversationMessage list"

record gate_sys =
  gate :: LocalInference
  in_flight :: "invocation list"

definition sys_enter :: "invocation \<Rightarrow> gate_sys \<Rightarrow> gate_sys" where
  "sys_enter call s =
     (case call of
        Completion rid \<Rightarrow>
          (case runInference_enter rid (gate s) of
             (Some response, this') \<Rightarrow> s\<lparr>gate := this'\<rparr>
           | (None, this') \<Rightarrow> s\<lparr>gate := this', in_flight := in_flight s @ [call]\<rparr>)
      | Chat rid history \<Rightarrow>
          (case runChatInference_enter rid history (gate s) of
             (Some response, this') \<Rightarrow> s\<lparr>gate := this'\<rparr>
           | (None, this') \<Rightarrow> s\<lparr>gate := this', in_flight := in_flight s @ [call]\<rparr>))"

definition sys_leave :: "nat \<Rightarrow> int \<Rightarrow> int \<Rightarrow> string + string \<Rightarrow> gate_sys \<Rightarrow> gate_sys" where
  "sys_leave i elapsed now body s =
     s\<lparr>gate :=
         (case in_flight s ! i of
            Completion rid \<Rightarrow> snd (runInference_leave rid elapsed body (gate s))
          | Chat rid history \<Rightarrow> snd (runChatInference_leave rid history elapsed now body (gate s))),
       in_flight := take i (in_flight s) @ drop (Suc i) (in_flight s)\<rparr>"

definition gate_start :: gate_sys where
  "gate_start = \<lparr>gate = \<lparr>inferenceCount = 0, activeInferences = 0\<rparr>, in_flight = []\<rparr>"

inductive reachable :: "gate_sys \<Rightarrow> bool" where
  start: "reachable gate_start"
| enter: "reachable s \<Longrightarrow> reachable (sys_enter call s)"
| leave: "reachable s \<Longrightarrow> i < length (in_flight s) \<Longrightarrow> reachable (sys_leave i elapsed now body s)"

text \<open>The state after four calls were admitted and none has completed.\<close>

definition four_in_flight :: gate_sys where
  "four_in_flight =
     sys_enter (Chat ''d'' []) (sys_enter (Completion ''c'')
       (sys_enter (Chat ''b'' []) (sys_enter (Completion ''a'') gate_start)))"

subsection \<open>The resource manager (\<^verbatim>\<open>resourceManager.ts\<close>)\<close>

text \<open>
  The metadata of a model; \<open>md_type\<close> and \<open>md_size\<close> are the fields \<^verbatim>\<open>type\<close> and
  \<^verbatim>\<open>size\<close>. A size that is absent counts as 0, which JavaScript treats alike in the one
  test that reads it.
\<close>

record ModelMetadata =
  md_name :: string
  md_version :: string
  md_type :: string
  md_quantization :: string
  md_size :: int
  md_parameters :: int
  md_modelFormat :: string
  md_lastModified :: int

text \<open>What the \<^verbatim>\<open>os\<close> module reports: memory in bytes and the number of CPUs.\<close>

record os_info =
  totalmem :: int
  freemem :: int
  cpus :: nat

record ResourceManager =
  resourcesAllocated :: bool
  reservedCores :: int
  reservedMemory :: real
  usingGPU :: bool

record ResourceCheckResult =
  sufficient :: bool
  reason :: "string option"
  availableMemory :: real
  requiredMemory :: real
  availableCores :: int
  gpuAvailable :: bool

definition MINIMUM_MEMORY_REQUIRED :: real where "MINIMUM_MEMORY_REQUIRED = 2048"
definition SYSTEM_MEMORY_BUFFER :: real where "SYSTEM_MEMORY_BUFFER = 1024"
definition MAX_CPU_USAGE_PERCENT :: real where "MAX_CPU_USAGE_PERCENT = 75"

text \<open>\<^verbatim>\<open>Math.round\<close>: the nearest integer, a half rounded up.\<close>

definition Math_round :: "real \<Rightarrow> int" where
  "Math_round x = \<lfloor>x + 1 / 2\<rfloor>"

text \<open>The mock GPU detection always answers that there is none.\<close>

definition checkGPUAvailability :: bool where
  "checkGPUAvailability = False"

definition calculateRequiredMemory :: "ModelMetadata option \<Rightarrow> real" where
  "calculateRequiredMemory modelMetadata =
     (case modelMetadata of
        None \<Rightarrow> MINIMUM_MEMORY_REQUIRED
      | Some md \<Rightarrow>
          if md_size md \<noteq> 0 then
            (let sizeInMB = real_of_int (md_size md) / (1024 * 1024)
             in max MINIMUM_MEMORY_REQUIRED (sizeInMB * 3))
          else MINIMUM_MEMORY_REQUIRED)"

definition checkResources :: "os_info \<Rightarrow> ModelMetadata option \<Rightarrow> ResourceCheckResult" where
  "checkResources os modelMetadata =
     (let freeMemory = real_of_int (freemem os) / (1024 * 1024);
          available = freeMemory - SYSTEM_MEMORY_BUFFER;
          required = calculateRequiredMemory modelMetadata;
          cores = \<lfloor>real (cpus os) * (MAX_CPU_USAGE_PERCENT / 100)\<rfloor>
      in if available < required then
           \<lparr>sufficient = False,
            reason = Some (''Insufficient memory: '' @ string_of_int (Math_round available)
                            @ ''MB available, '' @ string_of_int (Math_round required)
                            @ ''MB required''),
            availableMemory = available, requiredMemory = required, availableCores = cores,
            gpuAvailable = checkGPUAvailability\<rparr>
         else
           \<lparr>sufficient = True, reason = None,
            availableMemory = available, requiredMemory = required, availableCores = cores,
            gpuAvailable = checkGPUAvailability\<rparr>)"

definition allocateResources :: "os_info \<Rightarrow> ModelMetadata option \<Rightarrow> ResourceManager \<Rightarrow> ResourceManager" where
  "allocateResources os modelMetadata rm =
     (if resourcesAllocated rm then rm
      else
        rm\<lparr>reservedMemory := calculateRequiredMemory modelMetadata,
           reservedCores := \<lfloor>real (cpus os) * (MAX_CPU_USAGE_PERCENT / 100)\<rfloor>,
           usingGPU := checkGPUAvailability,
           resourcesAllocated := True\<rparr>)"

definition releaseResources :: "ResourceManager \<Rightarrow> ResourceManager" where
  "releaseResources rm =
     (if \<not> resourcesAllocated rm then rm
      else rm\<lparr>reservedMemory := 0, reservedCores := 0, usingGPU := False,
              resourcesAllocated := False\<rparr>)"

subsection \<open>The model loader (\<^verbatim>\<open>LocalModelLoader\<close>)\<close>

record ModelInstance =
  mi_name :: string
  loaded :: bool

record LocalModelLoader =
  currentModel :: "ModelInstance option"
  modelPath :: string
  modelMetadata :: "ModelMetadata option"
  isLoading :: bool
  lastLoadTime :: int

definition isModelLoaded :: "LocalModelLoader \<Rightarrow> bool" where
  "isModelLoaded this \<longleftrightarrow> currentModel this \<noteq> None"

definition getModelMetadata :: "LocalModelLoader \<Rightarrow> ModelMetadata option" where
  "getModelMetadata this = modelMetadata this"


text \<open>
  What a call of \<^verbatim>\<open>loadModel\<close> finds around it: the result of
  \<^verbatim>\<open>envManager.getModelPath()\<close> (\<open>Inl\<close> when loading the configuration fails),
  \<^verbatim>\<open>fs.existsSync\<close>, \<^verbatim>\<open>path.resolve\<close>, the result of \<^verbatim>\<open>extractModelMetadata\<close>, the
  operating system and the clock. \<^verbatim>\<open>extractModelMetadata\<close> catches every error of its
  own and returns minimal metadata then, so it always returns; what it returns is what
  \<^verbatim>\<open>JSON.parse\<close> found in \<^verbatim>\<open>metadata.json\<close>, which is \<^verbatim>\<open>null\<close> (\<open>None\<close>) when the file says so.
\<close>

record load_env =
  getModelPath :: "string + string"
  existsSync :: "string \<Rightarrow> bool"
  resolve :: "string \<Rightarrow> string"
  extractModelMetadata :: "string \<Rightarrow> ModelMetadata option"
  os :: os_info
  now :: int

text \<open>
  The body of \<^verbatim>\<open>try\<close>. It returns \<open>Inl\<close> the message of the error thrown, with the
  state as it is at the throw. Reading \<^verbatim>\<open>this.modelMetadata.name\<close> of a \<^verbatim>\<open>null\<close> metadata
  throws a \<^verbatim>\<open>TypeError\<close>, after the resources are allocated.
\<close>

definition loadModel_try ::
  "load_env \<Rightarrow> string option \<Rightarrow> LocalModelLoader \<times> ResourceManager
     \<Rightarrow> (string + unit) \<times> LocalModelLoader \<times> ResourceManager" where
  "loadModel_try env path_arg st =
     (let this = fst st; rm = snd st;
          configPath = (case path_arg of
                          None \<Rightarrow> getModelPath env
                        | Some p \<Rightarrow> if p \<noteq> [] then Inr p else getModelPath env)
      in case configPath of
           Inl err \<Rightarrow> (Inl err, this, rm)
         | Inr p \<Rightarrow>
             if p = [] then (Inl ''No model path specified'', this, rm)
             else if \<not> existsSync env p then (Inl (''Model path does not exist: '' @ p), this, rm)
             else
               let this = this\<lparr>modelPath := resolve env p\<rparr>;
                   this = this\<lparr>modelMetadata := extractModelMetadata env (modelPath this)\<rparr>;
                   resourceCheck = checkResources (os env) (modelMetadata this)
               in if \<not> sufficient resourceCheck then
                    (Inl (''Insufficient resources to load model: ''
                            @ (case reason resourceCheck of None \<Rightarrow> ''undefined'' | Some r \<Rightarrow> r)),
                     this, rm)
                  else
                    let rm = allocateResources (os env) (modelMetadata this) rm
                    in case modelMetadata this of
                         None \<Rightarrow>
                           (Inl ''Cannot read properties of null (reading 'name')'', this, rm)
                       | Some md \<Rightarrow>
                           (Inr (),
                            this\<lparr>currentModel := Some \<lparr>mi_name = md_name md, loaded = True\<rparr>,
                                 lastLoadTime := now env\<rparr>,
                            rm))"

text \<open>
  A call that has passed the guard sets \<^verbatim>\<open>isLoading\<close> and enters \<^verbatim>\<open>try\<close>, where it is
  suspended at each \<^verbatim>\<open>await\<close>; \<open>loadModel_begin\<close> gives the state in which other code
  runs meanwhile. Then \<^verbatim>\<open>try\<close> with its \<^verbatim>\<open>catch\<close>, which clears the model, releases the
  resources and throws the error again, and its \<^verbatim>\<open>finally\<close>, which resets \<^verbatim>\<open>isLoading\<close>.
\<close>

definition loadModel_begin :: "LocalModelLoader \<times> ResourceManager \<Rightarrow> LocalModelLoader \<times> ResourceManager" where
  "loadModel_begin st = (fst st\<lparr>isLoading := True\<rparr>, snd st)"

definition loadModel_run ::
  "load_env \<Rightarrow> string option \<Rightarrow> LocalModelLoader \<times> ResourceManager
     \<Rightarrow> (string + unit) \<times> LocalModelLoader \<times> ResourceManager" where
  "loadModel_run env path_arg st =
     (case loadModel_try env path_arg (loadModel_begin st) of
        (Inr u, this, rm) \<Rightarrow> (Inr (), this\<lparr>isLoading := False\<rparr>, rm)
      | (Inl err, this, rm) \<Rightarrow>
          (Inl err,
           this\<lparr>currentModel := None, modelMetadata := None, isLoading := False\<rparr>,
           releaseResources rm))"

text \<open>\<^verbatim>\<open>loadModel\<close>: the guard against a load in progress stands before \<^verbatim>\<open>try\<close>.\<close>

definition loadModel ::
  "load_env \<Rightarrow> string option \<Rightarrow> LocalModelLoader \<times> ResourceManager
     \<Rightarrow> (string + unit) \<times> LocalModelLoader \<times> ResourceManager" where
  "loadModel env path_arg st =
     (if isLoading (fst st) then (Inl ''Model loading already in progress'', st)
      else loadModel_run env path_arg st)"

definition unloadModel :: "LocalModelLoader \<times> ResourceManager \<Rightarrow> LocalModelLoader \<times> ResourceManager" where
  "unloadModel st =
     (if currentModel (fst st) \<noteq> None then
        (fst st\<lparr>currentModel := None, modelMetadata := None\<rparr>, releaseResources (snd st))
      else st)"

text \<open>
  An environment for the examples: a machine with 8 GiB of free memory and 8 CPUs, a
  model directory \<^verbatim>\<open>/models/llama\<close> with a model of 1 GiB, and a directory
  \<^verbatim>\<open>/models/broken\<close> whose \<^verbatim>\<open>metadata.json\<close> holds \<^verbatim>\<open>null\<close>; the loader before any load
  and after the load of the first directory.
\<close>

definition sample_os :: os_info where
  "sample_os = \<lparr>totalmem = 17179869184, freemem = 8589934592, cpus = 8\<rparr>"

definition sample_metadata :: ModelMetadata where
  "sample_metadata =
     \<lparr>md_name = ''llama-int8'', md_version = ''1.0.0'', md_type = ''llama'',
      md_quantization = ''int8'', md_size = 1073741824, md_parameters = 0,
      md_modelFormat = ''bin'', md_lastModified = 0\<rparr>"

definition sample_env :: load_env where
  "sample_env =
     \<lparr>getModelPath = Inr ''/models/llama'',
      existsSync = (\<lambda>p. p = ''/models/llama'' \<or> p = ''/models/broken''),
      resolve = (\<lambda>p. p),
      extractModelMetadata = (\<lambda>p. if p = ''/models/llama'' then Some sample_metadata else None),
      os = sample_os, now = 1700000000000\<rparr>"

definition fresh_loader :: "LocalModelLoader \<times> ResourceManager" where
  "fresh_loader =
     (\<lparr>currentModel = None, modelPath = [], modelMetadata = None, isLoading = False,
       lastLoadTime = 0\<rparr>,
      \<lparr>resourcesAllocated = False, reservedCores = 0, reservedMemory = 0, usingGPU = False\<rparr>)"

definition loaded_state :: "LocalModelLoader \<times> ResourceManager" where
  "loaded_state =
     (\<lparr>currentModel = Some \<lparr>mi_name = ''llama-int8'', loaded = True\<rparr>,
       modelPath = ''/models/llama'', modelMetadata = Some sample_metadata, isLoading = False,
       lastLoadTime = 1700000000000\<rparr>,
      \<lparr>resourcesAllocated = True, reservedCores = 6, reservedMemory = 3072, usingGPU = False\<rparr>)"

subsection \<open>String methods and regular expressions\<close>

definition to_lower :: "char \<Rightarrow> char" where
  "to_lower c =
     (case map_of (zip ''ABCDEFGHIJKLMNOPQRSTUVWXYZ'' ''abcdefghijklmnopqrstuvwxyz'') c of
        None \<Rightarrow> c | Some l \<Rightarrow> l)"

definition toLowerCase :: "string \<Rightarrow> string" where
  "toLowerCase s = map to_lower s"

fun startsWith :: "string \<Rightarrow> string \<Rightarrow> bool" where
  "startsWith s [] = True"
| "startsWith [] (p # ps) = False"
| "startsWith (c # cs) (p # ps) = (c = p \<and> startsWith cs ps)"


definition endsWith :: "string \<Rightarrow> string \<Rightarrow> bool" where
  "endsWith s suffix = startsWith (rev s) (rev suffix)"

text \<open>\<^verbatim>\<open>s.split(sep)\<close> for a separator of one character.\<close>

fun split_acc :: "char \<Rightarrow> string \<Rightarrow> string \<Rightarrow> string list" where
  "split_acc sep cur [] = [rev cur]"
| "split_acc sep cur (c # cs) =
     (if c = sep then rev cur # split_acc sep [] cs else split_acc sep (c # cur) cs)"

definition split :: "char \<Rightarrow> string \<Rightarrow> string list" where
  "split sep s = split_acc sep [] s"

text \<open>
  Regular expressions without groups to capture, for \<^verbatim>\<open>regex.test(text)\<close>: whether some
  substring of the text matches. Matching is by derivatives; \<open>seq\<close> and \<open>alt\<close> build a
  sequence and an alternative and drop the parts that cannot match.
\<close>

datatype rx = Zero | Eps | Sym "char \<Rightarrow> bool" | Seq rx rx | Alt rx rx | Star rx

fun nullable :: "rx \<Rightarrow> bool" where
  "nullable Zero = False"
| "nullable Eps = True"
| "nullable (Sym p) = False"
| "nullable (Seq a b) = (nullable a \<and> nullable b)"
| "nullable (Alt a b) = (nullable a \<or> nullable b)"
| "nullable (Star a) = True"

fun seq :: "rx \<Rightarrow> rx \<Rightarrow> rx" where
  "seq Zero b = Zero"
| "seq a Zero = Zero"
| "seq Eps b = b"
| "seq a b = Seq a b"

fun alt :: "rx \<Rightarrow> rx \<Rightarrow> rx" where
  "alt Zero b = b"
| "alt a Zero = a"
| "alt a b = Alt a b"

fun deriv :: "char \<Rightarrow> rx \<Rightarrow> rx" where
  "deriv c Zero = Zero"
| "deriv c Eps = Zero"
| "deriv c (Sym p) = (if p c then Eps else Zero)"
| "deriv c (Seq a b) =
     (if nullable a then alt (seq (deriv c a) b) (deriv c b) else seq (deriv c a) b)"
| "deriv c (Alt a b) = alt (deriv c a) (deriv c b)"
| "deriv c (Star a) = seq (deriv c a) (Star a)"

text \<open>Some prefix of the string matches.\<close>

fun match_prefix :: "rx \<Rightarrow> string \<Rightarrow> bool" where
  "match_prefix r [] = nullable r"
| "match_prefix r (c # cs) = (nullable r \<or> match_prefix (deriv c r) cs)"

fun rx_test :: "rx \<Rightarrow> string \<Rightarrow> bool" where
  "rx_test r [] = nullable r"
| "rx_test r (c # cs) = (match_prefix r (c # cs) \<or> rx_test r cs)"

text \<open>
  The pieces of the patterns: a literal, a literal under the flag \<^verbatim>\<open>i\<close>, \<^verbatim>\<open>r+\<close>, \<^verbatim>\<open>r?\<close>, a
  sequence, \<^verbatim>\<open>\s\<close>, \<^verbatim>\<open>\w\<close> and the dot, which matches all but line terminators.
\<close>

definition lit :: "string \<Rightarrow> rx" where
  "lit s = foldr (\<lambda>c r. Seq (Sym (\<lambda>x. x = c)) r) s Eps"

definition lit_i :: "string \<Rightarrow> rx" where
  "lit_i s = foldr (\<lambda>c r. Seq (Sym (\<lambda>x. to_lower x = to_lower c)) r) s Eps"

definition plus :: "rx \<Rightarrow> rx" where "plus r = Seq r (Star r)"
definition opt :: "rx \<Rightarrow> rx" where "opt r = Alt r Eps"
definition seqs :: "rx list \<Rightarrow> rx" where "seqs rs = foldr Seq rs Eps"

definition rx_s :: rx where "rx_s = Sym is_space"
definition rx_w :: rx where "rx_w = Sym is_word"
definition rx_dot :: rx where "rx_dot = Sym (\<lambda>c. c \<noteq> CHR 0x0A \<and> c \<noteq> CHR 0x0D)"

subsection \<open>The response post-processor (\<^verbatim>\<open>ResponsePostProcessor\<close>)\<close>

text \<open>The thirteen patterns of \<^verbatim>\<open>looksLikeCode\<close>, in the order of the source.\<close>

definition codeIndicators :: "rx list" where
  "codeIndicators =
     [seqs [lit_i ''function'', plus rx_s, plus rx_w, Star rx_s, lit ''(''],
      seqs [lit_i ''class'', plus rx_s, plus rx_w],
      seqs [lit_i ''if'', Star rx_s, lit ''('', plus rx_dot, lit '')'', Star rx_s, lit ''{''],
      seqs [lit_i ''for'', Star rx_s, lit ''('', plus rx_dot, lit '')'', Star rx_s, lit ''{''],
      seqs [lit_i ''while'', Star rx_s, lit ''('', plus rx_dot, lit '')'', Star rx_s, lit ''{''],
      seqs [lit_i ''import'', plus rx_s, plus rx_dot, plus rx_s, lit_i ''from''],
      seqs [lit_i ''export'', plus rx_s, opt (seqs [lit_i ''default'', plus rx_s])],
      seqs [lit_i ''const'', plus rx_s, plus rx_w, Star rx_s, lit ''=''],
      seqs [lit_i ''let'', plus rx_s, plus rx_w, Star rx_s, lit ''=''],
      seqs [lit_i ''var'', plus rx_s, plus rx_w, Star rx_s, lit ''=''],
      seqs [lit_i ''return'', plus rx_s, plus rx_dot, lit '';''],
      seqs [lit ''{'', Star rx_s,
            plus (Sym (\<lambda>c. is_word c \<or> c = CHR 0x27 \<or> c = CHR 0x22)), Star rx_s, lit '':''],
      seqs [lit ''<'', plus rx_w,
            Star (seqs [plus rx_s, plus rx_w, lit ''='', Sym (\<lambda>c. c = CHR 0x22), Star rx_dot,
                        Sym (\<lambda>c. c = CHR 0x22)]),
            Star rx_s, lit ''>'']]"

definition looksLikeCode :: "string \<Rightarrow> bool" where
  "looksLikeCode text =
     (if list_ex (\<lambda>regex. rx_test regex text) codeIndicators then True
      else
        let lines = filter (\<lambda>line. length (trim line) > 0) (split CHR 0x0A text);
            semicolonLines = length (filter (\<lambda>line. endsWith (trim line) '';'') lines);
            indentedLines =
              length (filter (\<lambda>line. startsWith line ''  '' \<or> startsWith line [CHR 0x09]) lines)
        in if length lines > 3 \<and> real semicolonLines / real (length lines) > 0.3 then True
           else if length lines > 3 \<and> real indentedLines / real (length lines) > 0.3 then True
           else False)"

text \<open>
  The pattern \<^verbatim>\<open>/```(?:(\w+)\n)?([\s\S]*?)```/g\<close>, run by \<^verbatim>\<open>exec\<close> from index 0. It has two
  groups to capture, so it is written out. \<open>until_fence s\<close> is what the lazy
  \<^verbatim>\<open>[\s\S]*?\<close> takes: the text before the first fence in \<open>s\<close>, if there is a fence.
  \<open>codeBlock_at s\<close> is the attempt to match at the start of \<open>s\<close>: after the opening
  fence the optional group is tried first, the longest run of \<^verbatim>\<open>\w\<close> and then a line
  feed, and when the match cannot be completed with it, the match is tried without it.
  \<open>codeBlock_exec\<close> tries every start from left to right. The result is the pair of
  group 1, if it took part, and group 2.
\<close>

fun until_fence :: "string \<Rightarrow> string option" where
  "until_fence [] = None"
| "until_fence (c # cs) =
     (if startsWith (c # cs) ''```'' then Some []
      else map_option ((#) c) (until_fence cs))"

definition codeBlock_at :: "string \<Rightarrow> (string option \<times> string) option" where
  "codeBlock_at s =
     (if startsWith s ''```'' then
        (let rest = drop 3 s;
             w = takeWhile is_word rest;
             after = dropWhile is_word rest;
             tagged =
               (if w \<noteq> [] \<and> startsWith after [CHR 0x0A] then
                  map_option (\<lambda>body. (Some w, body)) (until_fence (tl after))
                else None)
         in case tagged of
              Some m \<Rightarrow> Some m
            | None \<Rightarrow> map_option (\<lambda>body. (None, body)) (until_fence rest))
      else None)"

fun codeBlock_exec :: "string \<Rightarrow> (string option \<times> string) option" where
  "codeBlock_exec [] = codeBlock_at []"
| "codeBlock_exec (c # cs) =
     (case codeBlock_at (c # cs) of Some m \<Rightarrow> Some m | None \<Rightarrow> codeBlock_exec cs)"

text \<open>
  \<^verbatim>\<open>extractCodeFromResponse\<close> returns the code and the language. Its last two branches
  are both in the source, with the same result.
\<close>

definition extractCodeFromResponse :: "string \<Rightarrow> string option \<Rightarrow> string \<times> string option" where
  "extractCodeFromResponse responseText defaultLanguage =
     (case codeBlock_exec responseText of
        Some (lang, body) \<Rightarrow>
          (trim body, (case lang of Some l \<Rightarrow> Some l | None \<Rightarrow> defaultLanguage))
      | None \<Rightarrow>
          if looksLikeCode responseText then (trim responseText, defaultLanguage)
          else (trim responseText, defaultLanguage))"

text \<open>
  \<^verbatim>\<open>getParserForLanguage\<close>: the table of parsers, then the special cases, which the table
  already covers except for \<^verbatim>\<open>js\<close>, \<^verbatim>\<open>ts\<close>, \<^verbatim>\<open>md\<close> and \<^verbatim>\<open>yml\<close>. The table is an object
  literal and the test is \<^verbatim>\<open>normalizedLanguage in this.parserMapping\<close>, which also holds
  for the names of the properties that the object inherits from \<^verbatim>\<open>Object.prototype\<close>;
  for such a name the method returns the inherited value, which is not the name of a
  parser. \<open>Inherited k\<close> is the value of the inherited property \<open>k\<close>.
\<close>

datatype parser = BuiltIn string | Inherited string

definition parserMapping :: "(string \<times> string) list" where
  "parserMapping =
     [(''javascript'', ''babel''), (''typescript'', ''typescript''), (''jsx'', ''babel''),
      (''tsx'', ''typescript''), (''html'', ''html''), (''css'', ''css''), (''json'', ''json''),
      (''markdown'', ''markdown''), (''yaml'', ''yaml''), (''graphql'', ''graphql'')]"

definition objectPrototypeKeys :: "string list" where
  "objectPrototypeKeys =
     [''constructor'', ''__defineGetter__'', ''__defineSetter__'', ''hasOwnProperty'',
      ''__lookupGetter__'', ''__lookupSetter__'', ''isPrototypeOf'', ''propertyIsEnumerable'',
      ''toString'', ''valueOf'', ''__proto__'', ''toLocaleString'']"

definition getParserForLanguage :: "string option \<Rightarrow> parser option" where
  "getParserForLanguage lang =
     (case lang of
        None \<Rightarrow> None
      | Some l \<Rightarrow>
          if l = [] then None
          else
            let normalizedLanguage = toLowerCase l in
            case map_of parserMapping normalizedLanguage of
              Some name \<Rightarrow> Some (BuiltIn name)
            | None \<Rightarrow>
                if normalizedLanguage \<in> set objectPrototypeKeys then
                  Some (Inherited normalizedLanguage)
                else if normalizedLanguage \<in> set [''js'', ''jsx'', ''javascript''] then
                  Some (BuiltIn ''babel'')
                else if normalizedLanguage \<in> set [''ts'', ''tsx'', ''typescript''] then
                  Some (BuiltIn ''typescript'')
                else if normalizedLanguage \<in> set [''md'', ''markdown''] then
                  Some (BuiltIn ''markdown'')
                else if normalizedLanguage \<in> set [''yml'', ''yaml''] then Some (BuiltIn ''yaml'')
                else None)"

text \<open>
  \<^verbatim>\<open>formatCode\<close>. \<open>prettier parser code\<close> is the result of \<^verbatim>\<open>prettier.format\<close> with that value
  for its option \<^verbatim>\<open>parser\<close>, \<open>Inl\<close> when it throws; the method catches that and returns the
  code as it was.
\<close>

definition formatCode :: "(parser \<Rightarrow> string \<Rightarrow> string + string) \<Rightarrow> string \<Rightarrow> string option \<Rightarrow> string" where
  "formatCode prettier code lang =
     (if code = [] \<or> lang = None \<or> lang = Some [] then code
      else
        case getParserForLanguage lang of
          None \<Rightarrow> code
        | Some parser \<Rightarrow>
            (case prettier parser code of Inl err \<Rightarrow> code | Inr formattedCode \<Rightarrow> formattedCode))"

text \<open>
  The options of \<^verbatim>\<open>processResponse\<close> that change its result. \<^verbatim>\<open>validateCode\<close> and
  \<^verbatim>\<open>checkSecurity\<close> only write to the log, and the methods behind them do not throw.
\<close>

record ProcessingOptions =
  po_language :: "string option"
  po_formatCode :: "bool option"

text \<open>
  \<^verbatim>\<open>a || b\<close> for a string \<open>a\<close> that may be absent: \<open>b\<close> when \<open>a\<close> is absent or empty. \<open>b\<close>
  may be absent too (\<open>js_or\<close>) or not (\<open>or_else\<close>).
\<close>

definition js_or :: "string option \<Rightarrow> string option \<Rightarrow> string option" where
  "js_or a b = (case a of None \<Rightarrow> b | Some x \<Rightarrow> if x = [] then b else Some x)"


definition processResponse ::
  "(parser \<Rightarrow> string \<Rightarrow> string + string) \<Rightarrow> LLMResponse \<Rightarrow> ProcessingOptions \<Rightarrow> LLMResponse" where
  "processResponse prettier response options =
     (if (error response \<noteq> None \<and> error response \<noteq> Some []) \<or> generatedText response = []
      then response
      else
        let extractedCode = extractCodeFromResponse (generatedText response) (po_language options)
        in if fst extractedCode = [] then response
           else
             let processedCode =
                   (if po_formatCode options \<noteq> Some False then
                      formatCode prettier (fst extractedCode)
                        (js_or (snd extractedCode) (po_language options))
                    else fst extractedCode)
             in response\<lparr>generatedText := processedCode\<rparr>)"

subsection \<open>The chat service (\<^verbatim>\<open>ChatService\<close>)\<close>

text \<open>
  \<^verbatim>\<open>extractCodeFromMessage\<close> uses \<^verbatim>\<open>/```(\w+)?\s*\n([\s\S]*?)```/g\<close>. After the fence the
  longest run of \<^verbatim>\<open>\w\<close> is group 1 (no shorter run can be followed by white space or a
  line feed). Then \<^verbatim>\<open>\s*\<close> is greedy and must leave a line feed to follow it, so it ends
  before the last line feed of the white space that follows; group 2 starts after that
  line feed and ends before the next fence.
\<close>

definition messageBlock_at :: "string \<Rightarrow> (string option \<times> string) option" where
  "messageBlock_at s =
     (if startsWith s ''```'' then
        (let rest = drop 3 s;
             w = takeWhile is_word rest;
             after = dropWhile is_word rest;
             ws = takeWhile is_space after;
             tail = dropWhile is_space after
         in if CHR 0x0A \<in> set ws then
              map_option (\<lambda>body. (if w = [] then None else Some w, body))
                (until_fence (rev (takeWhile (\<lambda>c. c \<noteq> CHR 0x0A) (rev ws)) @ tail))
            else None)
      else None)"

fun messageBlock_exec :: "string \<Rightarrow> (string option \<times> string) option" where
  "messageBlock_exec [] = messageBlock_at []"
| "messageBlock_exec (c # cs) =
     (case messageBlock_at (c # cs) of Some m \<Rightarrow> Some m | None \<Rightarrow> messageBlock_exec cs)"

definition extractCodeFromMessage :: "string \<Rightarrow> string \<times> string option" where
  "extractCodeFromMessage msg =
     (case messageBlock_exec msg of
        Some (lang, body) \<Rightarrow> (trim body, lang)
      | None \<Rightarrow> ([], None))"

text \<open>
  Chat messages and sessions (\<^verbatim>\<open>chatController.ts\<close>). The fields \<^verbatim>\<open>id\<close> are \<open>msg_id\<close> and
  \<open>session_id\<close>. The values of \<^verbatim>\<open>metadata\<close> are kept as text.
\<close>

record ChatMessage =
  msg_id :: string
  msg_role :: Role
  msg_content :: string
  msg_timestamp :: int
  hasCode :: "bool option"
  codeLanguage :: "string option"

record ChatSession =
  session_id :: string
  title :: string
  messages :: "ChatMessage list"
  createdAt :: int
  updatedAt :: int
  systemMessage :: "string option"
  metadata :: "(string \<times> string) list"










subsection \<open>The code generator (\<^verbatim>\<open>CodeGenerator\<close>) and the models it calls\<close>

text \<open>
  The request that the prompt parser builds (\<^verbatim>\<open>llmRequest.ts\<close>), the options of
  \<^verbatim>\<open>generateCode\<close> and the options that it passes to the prompt parser. The field
  \<^verbatim>\<open>model\<close> of the request and the project context, which nothing below reads, are left
  out.
\<close>

record CodeContext =
  cc_language :: string
  surroundingCode :: "string option"
  cc_filePath :: "string option"




























definition python_block :: string where
  "python_block =
     ''```python'' @ [CHR 0x0A] @ ''def f():'' @ [CHR 0x0A] @ ''    return 1'' @ [CHR 0x0A] @ ''```''"

definition plain_answer :: string where
  "plain_answer = ''Hi there!'' @ [CHR 0x0A]"

subsection \<open>The chat controller's session store (\<^verbatim>\<open>ChatController\<close>)\<close>

text \<open>
  A JavaScript \<^verbatim>\<open>Map\<close> keeps its entries in the order of insertion: \<^verbatim>\<open>set\<close> replaces the
  value of a key that is present, in place, and appends a new key. It is an association
  list with these operations. The object that \<^verbatim>\<open>saveSessions\<close> builds is the same kind of
  list: the keys are session identifiers, which are not array indices, so JavaScript
  enumerates them in the order of insertion as well.
\<close>

fun map_set :: "string \<Rightarrow> 'v \<Rightarrow> (string \<times> 'v) list \<Rightarrow> (string \<times> 'v) list" where
  "map_set k v [] = [(k, v)]"
| "map_set k v (e # m) = (if fst e = k then (k, v) # m else e # map_set k v m)"

definition map_delete :: "string \<Rightarrow> (string \<times> 'v) list \<Rightarrow> (string \<times> 'v) list" where
  "map_delete k m = filter (\<lambda>e. fst e \<noteq> k) m"

definition map_has :: "string \<Rightarrow> (string \<times> 'v) list \<Rightarrow> bool" where
  "map_has k m \<longleftrightarrow> map_of m k \<noteq> None"

record ChatController =
  sessions :: "(string \<times> ChatSession) list"
  activeSession :: "string option"

text \<open>
  The two keys of \<^verbatim>\<open>globalState\<close> that the controller uses; \<open>None\<close> is a key that was
  never written. Writing to the store is taken to succeed, and reading returns the value
  that was written.
\<close>

record Memento =
  stored_chatSessions :: "(string \<times> ChatSession) list option"
  stored_activeSession :: "string option"

definition new_controller :: ChatController where
  "new_controller = \<lparr>sessions = [], activeSession = None\<rparr>"

text \<open>
  \<^verbatim>\<open>Array.from(this.sessions.values()).sort((a, b) => b.updatedAt - a.updatedAt)\<close>: the
  sort of JavaScript is stable, as \<open>sort_key\<close> is.
\<close>

definition getAllSessions :: "ChatController \<Rightarrow> ChatSession list" where
  "getAllSessions this = sort_key (\<lambda>s. - updatedAt s) (map snd (sessions this))"

definition loadSessions :: "Memento \<Rightarrow> ChatController \<Rightarrow> ChatController" where
  "loadSessions globalState this =
     (let this =
            (case stored_chatSessions globalState of
               None \<Rightarrow> this
             | Some savedSessions \<Rightarrow>
                 this\<lparr>sessions :=
                   fold (\<lambda>session m. map_set (session_id session) session m)
                     (map snd savedSessions) (sessions this)\<rparr>);
          mostRecent =
            (case getAllSessions this of
               [] \<Rightarrow> this
             | s # sortedSessions \<Rightarrow> this\<lparr>activeSession := Some (session_id s)\<rparr>)
      in case stored_activeSession globalState of
           None \<Rightarrow> mostRecent
         | Some activeSessionId \<Rightarrow>
             if activeSessionId \<noteq> [] \<and> map_has activeSessionId (sessions this)
             then this\<lparr>activeSession := Some activeSessionId\<rparr>
             else mostRecent)"

definition saveSessions :: "ChatController \<Rightarrow> Memento \<Rightarrow> Memento" where
  "saveSessions this globalState =
     (let sessionsObject = fold (\<lambda>e obj. map_set (fst e) (snd e) obj) (sessions this) [];
          globalState = globalState\<lparr>stored_chatSessions := Some sessionsObject\<rparr>
      in case activeSession this of
           None \<Rightarrow> globalState
         | Some a \<Rightarrow> if a \<noteq> [] then globalState\<lparr>stored_activeSession := Some a\<rparr> else globalState)"

definition not_found :: "string \<Rightarrow> string" where
  "not_found sessionId = ''Chat session not found: '' @ sessionId"

text \<open>
  \<^verbatim>\<open>createSession\<close>; \<open>uuid\<close> and \<open>uuid2\<close> are the identifiers that \<^verbatim>\<open>uuidv4\<close> returns for
  the session and for its system message, \<open>clock\<close> is \<^verbatim>\<open>Date.now()\<close>.
\<close>

definition createSession ::
  "string option \<Rightarrow> string option \<Rightarrow> string \<Rightarrow> string \<Rightarrow> int \<Rightarrow> ChatController
     \<Rightarrow> string \<times> ChatController" where
  "createSession title_arg systemMessage_arg uuid uuid2 clock this =
     (let newSession =
            \<lparr>session_id = uuid,
             title = (case title_arg of
                        None \<Rightarrow> ''Chat Session '' @ string_of_nat (length (sessions this) + 1)
                      | Some t \<Rightarrow>
                          if t \<noteq> [] then t
                          else ''Chat Session '' @ string_of_nat (length (sessions this) + 1)),
             messages =
               (case systemMessage_arg of
                  None \<Rightarrow> []
                | Some sm \<Rightarrow>
                    if sm \<noteq> [] then
                      [\<lparr>msg_id = uuid2, msg_role = System, msg_content = sm,
                        msg_timestamp = clock, hasCode = None, codeLanguage = None\<rparr>]
                    else []),
             createdAt = clock, updatedAt = clock, systemMessage = systemMessage_arg,
             metadata = []\<rparr>
      in (uuid, this\<lparr>sessions := map_set uuid newSession (sessions this),
                      activeSession := Some uuid\<rparr>))"

definition getSession :: "ChatController \<Rightarrow> string \<Rightarrow> ChatSession option" where
  "getSession this sessionId = map_of (sessions this) sessionId"

definition getActiveSession :: "ChatController \<Rightarrow> ChatSession option" where
  "getActiveSession this =
     (case activeSession this of
        None \<Rightarrow> None
      | Some a \<Rightarrow> if a = [] then None else map_of (sessions this) a)"

definition setActiveSession :: "string \<Rightarrow> ChatController \<Rightarrow> string + ChatController" where
  "setActiveSession sessionId this =
     (if \<not> map_has sessionId (sessions this) then Inl (not_found sessionId)
      else Inr (this\<lparr>activeSession := Some sessionId\<rparr>))"

record SessionUpdates =
  u_title :: "string option"
  u_systemMessage :: "string option"
  u_metadata :: "(string \<times> string) list option"

text \<open>
  \<^verbatim>\<open>findIndex\<close>, with \<open>None\<close> for -1, and the change of the message list when
  \<^verbatim>\<open>updates.systemMessage\<close> is defined.
\<close>

fun findIndex :: "('a \<Rightarrow> bool) \<Rightarrow> 'a list \<Rightarrow> nat option" where
  "findIndex P [] = None"
| "findIndex P (x # xs) = (if P x then Some 0 else map_option Suc (findIndex P xs))"

definition update_system_message :: "string \<Rightarrow> string \<Rightarrow> int \<Rightarrow> ChatMessage list \<Rightarrow> ChatMessage list" where
  "update_system_message sm uuid clock msgs =
     (let systemMessageIndex = findIndex (\<lambda>msg. msg_role msg = System) msgs in
      if sm \<noteq> [] then
        (case systemMessageIndex of
           Some i \<Rightarrow> msgs[i := (msgs ! i)\<lparr>msg_content := sm\<rparr>]
         | None \<Rightarrow>
             \<lparr>msg_id = uuid, msg_role = System, msg_content = sm, msg_timestamp = clock,
              hasCode = None, codeLanguage = None\<rparr> # msgs)
      else
        (case systemMessageIndex of
           Some i \<Rightarrow> take i msgs @ drop (Suc i) msgs
         | None \<Rightarrow> msgs))"

definition updateSession ::
  "string \<Rightarrow> SessionUpdates \<Rightarrow> string \<Rightarrow> int \<Rightarrow> int \<Rightarrow> ChatController \<Rightarrow> string + ChatController" where
  "updateSession sessionId updates uuid clock clock2 this =
     (case map_of (sessions this) sessionId of
        None \<Rightarrow> Inl (not_found sessionId)
      | Some session \<Rightarrow>
          let session =
                (case u_title updates of
                   None \<Rightarrow> session
                 | Some t \<Rightarrow> if t \<noteq> [] then session\<lparr>title := t\<rparr> else session);
              session =
                (case u_systemMessage updates of
                   None \<Rightarrow> session
                 | Some sm \<Rightarrow>
                     session\<lparr>systemMessage := Some sm,
                             messages := update_system_message sm uuid clock (messages session)\<rparr>);
              session =
                (case u_metadata updates of
                   None \<Rightarrow> session
                 | Some md \<Rightarrow>
                     session\<lparr>metadata :=
                       fold (\<lambda>e obj. map_set (fst e) (snd e) obj) md (metadata session)\<rparr>);
              session = session\<lparr>updatedAt := clock2\<rparr>
          in Inr (this\<lparr>sessions := map_set sessionId session (sessions this)\<rparr>))"

definition deleteSession :: "string \<Rightarrow> ChatController \<Rightarrow> string + ChatController" where
  "deleteSession sessionId this =
     (if \<not> map_has sessionId (sessions this) then Inl (not_found sessionId)
      else
        let this = this\<lparr>sessions := map_delete sessionId (sessions this)\<rparr> in
        if activeSession this = Some sessionId then
          (case getAllSessions this of
             [] \<Rightarrow> Inr (this\<lparr>activeSession := None\<rparr>)
           | s # remainingSessions \<Rightarrow> Inr (this\<lparr>activeSession := Some (session_id s)\<rparr>))
        else Inr this)"

text \<open>
  The test \<^verbatim>\<open>/```(\w+)?\s*[\s\S]*?```/g.test(content)\<close> holds when a fence is followed,
  after it, by another fence: every part between the two may match the empty string or
  any text. \<^verbatim>\<open>content.match(/```(\w+)/)\<close> finds the first fence that a \<^verbatim>\<open>\w\<close> follows and
  captures the longest run of them.
\<close>

fun after_fence :: "string \<Rightarrow> string option" where
  "after_fence [] = None"
| "after_fence (c # cs) =
     (if startsWith (c # cs) ''```'' then Some (drop 3 (c # cs)) else after_fence cs)"

definition hasCodeBlock :: "string \<Rightarrow> bool" where
  "hasCodeBlock content =
     (case after_fence content of None \<Rightarrow> False | Some rest \<Rightarrow> until_fence rest \<noteq> None)"

fun languageMatch :: "string \<Rightarrow> string option" where
  "languageMatch [] = None"
| "languageMatch (c # cs) =
     (if startsWith (c # cs) ''```'' \<and> takeWhile is_word (drop 3 (c # cs)) \<noteq> []
      then Some (takeWhile is_word (drop 3 (c # cs)))
      else languageMatch cs)"

definition detect_code :: "ChatMessage \<Rightarrow> ChatMessage" where
  "detect_code msg =
     (if hasCodeBlock (msg_content msg) then
        msg\<lparr>hasCode := Some True,
            codeLanguage := (case languageMatch (msg_content msg) of
                               None \<Rightarrow> codeLanguage msg | Some l \<Rightarrow> Some l)\<rparr>
      else msg)"

text \<open>\<^verbatim>\<open>session.messages.push(message); session.updatedAt = message.timestamp\<close>.\<close>

definition push_message :: "string \<Rightarrow> ChatMessage \<Rightarrow> ChatController \<Rightarrow> ChatController" where
  "push_message sessionId msg this =
     (case map_of (sessions this) sessionId of
        None \<Rightarrow> this
      | Some session \<Rightarrow>
          this\<lparr>sessions :=
            map_set sessionId
              (session\<lparr>messages := messages session @ [msg], updatedAt := msg_timestamp msg\<rparr>)
              (sessions this)\<rparr>)"

definition addUserMessage ::
  "string \<Rightarrow> string \<Rightarrow> string \<Rightarrow> int \<Rightarrow> ChatController \<Rightarrow> string + ChatMessage \<times> ChatController" where
  "addUserMessage sessionId content uuid clock this =
     (if \<not> map_has sessionId (sessions this) then Inl (not_found sessionId)
      else
        let msg = detect_code
                    \<lparr>msg_id = uuid, msg_role = User, msg_content = content, msg_timestamp = clock,
                     hasCode = None, codeLanguage = None\<rparr>
        in Inr (msg, push_message sessionId msg this))"

text \<open>
  \<^verbatim>\<open>handleMessage\<close>; \<open>chat session\<close> is the result of \<^verbatim>\<open>chatService.processMessage\<close> for the
  session with the user's message in it, \<open>Inl\<close> if it throws.
\<close>

definition handleMessage ::
  "(ChatSession \<Rightarrow> string + ChatLLMResponse) \<Rightarrow> string \<Rightarrow> string \<Rightarrow> string \<Rightarrow> int \<Rightarrow> string \<Rightarrow> int
     \<Rightarrow> ChatController \<Rightarrow> string + ChatMessage \<times> ChatController" where
  "handleMessage chat sessionId content uuid clock uuid2 clock2 this =
     (case addUserMessage sessionId content uuid clock this of
        Inl err \<Rightarrow> Inl err
      | Inr (userMessage, this) \<Rightarrow>
          (case map_of (sessions this) sessionId of
             None \<Rightarrow> Inl (not_found sessionId)
           | Some session \<Rightarrow>
               (case chat session of
                  Inr response \<Rightarrow>
                    let assistantMessage =
                          detect_code
                            \<lparr>msg_id = uuid2, msg_role = Assistant,
                             msg_content = generatedText response, msg_timestamp = clock2,
                             hasCode = None, codeLanguage = None\<rparr>
                    in Inr (assistantMessage, push_message sessionId assistantMessage this)
                | Inl err \<Rightarrow>
                    let errorMessage =
                          \<lparr>msg_id = uuid2, msg_role = Assistant,
                           msg_content =
                             ''I'm sorry, I encountered an error while processing your message: ''
                             @ err,
                           msg_timestamp = clock2, hasCode = None, codeLanguage = None\<rparr>
                    in Inr (errorMessage, push_message sessionId errorMessage this))))"

text \<open>
  \<^verbatim>\<open>handleCodeGeneration\<close>; \<open>generated\<close> is the result of \<^verbatim>\<open>codeGenerator.generateCode\<close>. The
  method changes the store and then throws when the generator threw, so it returns the
  store beside its result.
\<close>

definition handleCodeGeneration ::
  "(string + CodeLLMResponse) \<Rightarrow> string \<Rightarrow> string \<Rightarrow> string \<Rightarrow> int \<Rightarrow> string \<Rightarrow> int
     \<Rightarrow> ChatController \<Rightarrow> (string + CodeLLMResponse) \<times> ChatController" where
  "handleCodeGeneration generated sessionId p uuid clock uuid2 clock2 this =
     (if \<not> map_has sessionId (sessions this) then (Inl (not_found sessionId), this)
      else
        let failed = (\<lambda>err this.
              (Inl err,
               push_message sessionId
                 \<lparr>msg_id = uuid2, msg_role = Assistant,
                  msg_content =
                    ''I'm sorry, I encountered an error while generating code: '' @ err,
                  msg_timestamp = clock2, hasCode = None, codeLanguage = None\<rparr> this))
        in case addUserMessage sessionId p uuid clock this of
             Inl err \<Rightarrow> failed err this
           | Inr (userMessage, this) \<Rightarrow>
               (case generated of
                  Inl err \<Rightarrow> failed err this
                | Inr response \<Rightarrow>
                    let formattedResponse =
                          (if code_language response \<noteq> [] \<and> generatedText response \<noteq> [] then
                             ''```'' @ code_language response @ [CHR 0x0A]
                             @ generatedText response @ [CHR 0x0A] @ ''```''
                             @ (case explanation response of
                                  None \<Rightarrow> []
                                | Some ex \<Rightarrow> if ex \<noteq> [] then [CHR 0x0A, CHR 0x0A] @ ex else [])
                           else generatedText response)
                    in (Inr response,
                        push_message sessionId
                          \<lparr>msg_id = uuid2, msg_role = Assistant, msg_content = formattedResponse,
                           msg_timestamp = clock2, hasCode = Some True,
                           codeLanguage = Some (code_language response)\<rparr> this)))"

definition clearSessionHistory :: "string \<Rightarrow> int \<Rightarrow> ChatController \<Rightarrow> string + ChatController" where
  "clearSessionHistory sessionId clock this =
     (case map_of (sessions this) sessionId of
        None \<Rightarrow> Inl (not_found sessionId)
      | Some session \<Rightarrow>
          let systemMsg = find (\<lambda>msg. msg_role msg = System) (messages session);
              session = session\<lparr>messages := (case systemMsg of None \<Rightarrow> [] | Some m \<Rightarrow> [m]),
                                updatedAt := clock\<rparr>
          in Inr (this\<lparr>sessions := map_set sessionId session (sessions this)\<rparr>))"

text \<open>
  The states of the store that the program reaches: it starts on an empty
  \<^verbatim>\<open>globalState\<close>, or later on what a reachable store saved, and every public method
  takes it to the next state. An identifier from \<^verbatim>\<open>uuidv4\<close> is not the empty string.
\<close>

inductive reachable_store :: "ChatController \<Rightarrow> bool" where
  first_start:
    "reachable_store
       (loadSessions \<lparr>stored_chatSessions = None, stored_activeSession = None\<rparr> new_controller)"
| restart:
    "reachable_store this \<Longrightarrow>
     reachable_store (loadSessions (saveSessions this globalState) new_controller)"
| create:
    "reachable_store this \<Longrightarrow> uuid \<noteq> [] \<Longrightarrow>
     reachable_store (snd (createSession title_arg systemMessage_arg uuid uuid2 clock this))"
| set_active:
    "reachable_store this \<Longrightarrow> setActiveSession sessionId this = Inr this' \<Longrightarrow>
     reachable_store this'"
| update:
    "reachable_store this \<Longrightarrow> updateSession sessionId updates uuid clock clock2 this = Inr this' \<Longrightarrow>
     reachable_store this'"
| delete:
    "reachable_store this \<Longrightarrow> deleteSession sessionId this = Inr this' \<Longrightarrow>
     reachable_store this'"
| add_user:
    "reachable_store this \<Longrightarrow> addUserMessage sessionId content uuid clock this = Inr (msg, this') \<Longrightarrow>
     reachable_store this'"
| handle:
    "reachable_store this \<Longrightarrow>
     handleMessage chat sessionId content uuid clock uuid2 clock2 this = Inr (msg, this') \<Longrightarrow>
     reachable_store this'"
| handle_code:
    "reachable_store this \<Longrightarrow>
     reachable_store (snd (handleCodeGeneration generated sessionId p uuid clock uuid2 clock2 this))"
| clear:
    "reachable_store this \<Longrightarrow> clearSessionHistory sessionId clock this = Inr this' \<Longrightarrow>
     reachable_store this'"

text \<open>
  What holds of every reachable store: the keys are distinct, each entry is filed under
  the identifier of its session, which is not empty, and the active session is one of
  the sessions, or there is no session at all.
\<close>

definition store_inv :: "ChatController \<Rightarrow> bool" where
  "store_inv this \<longleftrightarrow>
     distinct (map fst (sessions this)) \<and>
     (\<forall>e \<in> set (sessions this). session_id (snd e) = fst e \<and> fst e \<noteq> []) \<and>
     (case activeSession this of
        None \<Rightarrow> sessions this = []
      | Some a \<Rightarrow> a \<in> fst ` set (sessions this))"

text \<open>An empty \<^verbatim>\<open>globalState\<close> and a store with two sessions, for the example.\<close>

definition empty_storage :: Memento where
  "empty_storage = \<lparr>stored_chatSessions = None, stored_activeSession = None\<rparr>"

definition two_sessions :: ChatController where
  "two_sessions =
     snd (createSession None (Some ''Be brief.'') ''id-b'' ''id-m'' 20
       (snd (createSession (Some ''Plan'') None ''id-a'' ''id-x'' 10
          (loadSessions \<lparr>stored_chatSessions = None, stored_activeSession = None\<rparr> new_controller))))"

section \<open>Properties\<close>

subsection \<open>Classification of errors (C3)\<close>

text \<open>
  The classification is a total function of the error (every HOL function is), with no
  effect, and its clauses apply in the order of the source: an Axios error without a
  response is \<^verbatim>\<open>network\<close> and retried; with a response, status 408 or the code
  \<^verbatim>\<open>ECONNABORTED\<close> is \<^verbatim>\<open>timeout\<close> and retried; of the errors that remain, 429 is
  \<^verbatim>\<open>rate_limit\<close> and retried, 401 and 403 are \<^verbatim>\<open>authentication\<close> and not retried, every
  other status from 400 to 499 is \<^verbatim>\<open>bad_request\<close> and not retried, every status from 500
  up is \<^verbatim>\<open>server\<close> and retried; the rest, a status below 400 or an error that is not an
  Axios error, is \<^verbatim>\<open>unknown\<close> and not retried.
\<close>

lemma categorizeError_clauses:
  fixes r :: AxiosResponse and c :: "string option" and m s :: string
  shows
  "verdict (AxiosError None c m) = (Network, True) \<and>
   (resp_status r = 408 \<or> c = Some ''ECONNABORTED'' \<longrightarrow>
      verdict (AxiosError (Some r) c m) = (Timeout, True)) \<and>
   (resp_status r \<noteq> 408 \<and> c \<noteq> Some ''ECONNABORTED'' \<longrightarrow>
      (resp_status r = 429 \<longrightarrow> verdict (AxiosError (Some r) c m) = (Rate_limit, True)) \<and>
      (resp_status r = 401 \<or> resp_status r = 403 \<longrightarrow>
         verdict (AxiosError (Some r) c m) = (Authentication, False)) \<and>
      (400 \<le> resp_status r \<and> resp_status r < 500 \<and> resp_status r \<notin> {429, 401, 403} \<longrightarrow>
         verdict (AxiosError (Some r) c m) = (Bad_request, False)) \<and>
      (500 \<le> resp_status r \<longrightarrow> verdict (AxiosError (Some r) c m) = (Server, True)) \<and>
      (resp_status r < 400 \<longrightarrow> verdict (AxiosError (Some r) c m) = (Unknown, False))) \<and>
   verdict (OtherError m) = (Unknown, False) \<and>
   verdict (Thrown s) = (Unknown, False)"
  by (simp add: verdict_def Let_def unknown_details_def)

text \<open>
  Claim C3 says that a call that timed out or was aborted is classified \<^verbatim>\<open>timeout\<close>.
  Axios reports a timeout and an abort by an error with the code \<^verbatim>\<open>ECONNABORTED\<close> and
  without a response. The test for a missing response stands first in
  \<^verbatim>\<open>categorizeError\<close>, so that error is classified \<^verbatim>\<open>network\<close>, with the message of a
  network error, as every Axios error without a response is, whatever its code. The
  test for \<^verbatim>\<open>ECONNABORTED\<close> that the method has comes after it and is reached only by
  an error that carries a response; that one it classifies \<^verbatim>\<open>timeout\<close>.
\<close>

theorem categorizeError_timeout_without_response:
  "categorizeError (AxiosError None (Some ''ECONNABORTED'') ''timeout of 30000ms exceeded'')
     = \<lparr>type = Network, status = None, message = ''Network error occurred'', retryable = True\<rparr> \<and>
   type (categorizeError (AxiosError None code msg)) = Network \<and>
   type (categorizeError (AxiosError (Some response) (Some ''ECONNABORTED'') msg)) = Timeout"
  by (simp add: Let_def)

subsection \<open>Retries (C4)\<close>

lemma retry_loop_success:
  "int a \<le> m \<Longrightarrow> fn a = Inr v \<Longrightarrow>
   retry_loop fn rnd m a le sl = \<lparr>outcome = Inr v, calls = a + 1, delays = sl\<rparr>"
  by (subst retry_loop.simps) simp

lemma retry_loop_stop:
  "int a \<le> m \<Longrightarrow> fn a = Inl e \<Longrightarrow> \<not> retryable (categorizeError e) \<or> m \<le> int a \<Longrightarrow>
   retry_loop fn rnd m a le sl = retry_throw m (Some e) (a + 1) sl"
  by (subst retry_loop.simps) auto

lemma retry_loop_again:
  "int a < m \<Longrightarrow> fn a = Inl e \<Longrightarrow> retryable (categorizeError e) \<Longrightarrow>
   retry_loop fn rnd m a le sl =
   retry_loop fn rnd m (a + 1) (Some e) (sl @ [retryDelay e a (rnd a)])"
  by (subst retry_loop.simps) auto

lemma retry_loop_calls_le:
  "calls (retry_loop fn rnd m a le sl) \<le> max a (nat (m + 1))"
proof (induction fn rnd m a le sl rule: retry_loop.induct)
  case (1 fn rnd m a le sl)
  show ?case
  proof (cases "int a \<le> m")
    case False
    then show ?thesis by (subst retry_loop.simps) (simp add: retry_throw_def Let_def)
  next
    case le: True
    show ?thesis
    proof (cases "fn a")
      case (Inr v)
      with le show ?thesis by (simp add: retry_loop_success)
    next
      case (Inl e)
      show ?thesis
      proof (cases "\<not> retryable (categorizeError e) \<or> m \<le> int a")
        case True
        with le Inl show ?thesis
          by (simp add: retry_loop_stop retry_throw_def Let_def)
      next
        case False
        with le Inl have "calls (retry_loop fn rnd m (a + 1) (Some e) (sl @ [retryDelay e a (rnd a)]))
            \<le> max (a + 1) (nat (m + 1))"
          using "1.IH"[of e] by simp
        moreover from False le Inl have "retry_loop fn rnd m a le sl =
            retry_loop fn rnd m (a + 1) (Some e) (sl @ [retryDelay e a (rnd a)])"
          by (intro retry_loop_again) auto
        ultimately show ?thesis using False by (simp add: max_def split: if_splits; linarith?)
      qed
    qed
  qed
qed

lemma retryable_iff: "retryable (categorizeError e) \<longleftrightarrow> type (categorizeError e) \<in> {Network, Timeout, Server, Rate_limit}"
  by (induction e rule: categorizeError.induct) (simp_all add: Let_def unknown_details_def)

lemma retry_loop_all_fail:
  "int a \<le> m \<Longrightarrow> (\<forall>k. a \<le> k \<and> int k \<le> m \<longrightarrow> fails_with fn k {Network, Timeout, Server, Rate_limit}) \<Longrightarrow>
   (case fn (nat m) of Inl e \<Rightarrow>
      outcome (retry_loop fn rnd m a le sl) =
        Inl (''API request failed after '' @ string_of_int (m + 1) @ '' attempts: ''
              @ message (categorizeError e)) | Inr v \<Rightarrow> False) \<and>
   calls (retry_loop fn rnd m a le sl) = nat (m + 1) \<and>
   length (delays (retry_loop fn rnd m a le sl)) = length sl + (nat m - a)"
proof (induction "nat m - a" arbitrary: a le sl)
  case 0
  then have am: "int a = m" by simp
  from 0 have "fails_with fn a {Network, Timeout, Server, Rate_limit}" by simp
  then obtain e where e: "fn a = Inl e"
    by (auto simp: fails_with_def split: sum.splits)
  have "retry_loop fn rnd m a le sl = retry_throw m (Some e) (a + 1) sl"
    using am e by (intro retry_loop_stop) auto
  moreover have "nat m = a" using am by simp
  ultimately show ?case using e am by (simp add: retry_throw_def Let_def; linarith?)
next
  case (Suc d)
  then have lt: "int a < m" by linarith
  from Suc.prems lt have "fails_with fn a {Network, Timeout, Server, Rate_limit}" by simp
  then obtain e where e: "fn a = Inl e" and r: "retryable (categorizeError e)"
    by (auto simp: fails_with_def retryable_iff split: sum.splits)
  have step: "retry_loop fn rnd m a le sl =
      retry_loop fn rnd m (a + 1) (Some e) (sl @ [retryDelay e a (rnd a)])"
    using lt e r by (rule retry_loop_again)
  have d: "d = nat m - (a + 1)" using Suc.hyps(2) by linarith
  have "int (a + 1) \<le> m" using lt by simp
  moreover have "\<forall>k. a + 1 \<le> k \<and> int k \<le> m \<longrightarrow> fails_with fn k {Network, Timeout, Server, Rate_limit}"
    using Suc.prems(2) by simp
  ultimately show ?case
    using Suc.hyps(1)[OF d, of "Some e" "sl @ [retryDelay e a (rnd a)]"] step lt
    by (simp split: sum.splits; linarith?)
qed

lemma retry_loop_reaches:
  "(\<forall>j. a \<le> j \<and> j < k \<longrightarrow> fails_with fn j {Network, Timeout, Server, Rate_limit}) \<Longrightarrow> a \<le> k \<Longrightarrow> int k \<le> m \<Longrightarrow>
   \<exists>le' sl'. retry_loop fn rnd m a le sl = retry_loop fn rnd m k le' sl' \<and> length sl' = length sl + (k - a)"
proof (induction "k - a" arbitrary: a le sl)
  case 0
  then show ?case by auto
next
  case (Suc d)
  then have lt: "a < k" by linarith
  with Suc.prems have "fails_with fn a {Network, Timeout, Server, Rate_limit}" by simp
  then obtain e where e: "fn a = Inl e" and r: "retryable (categorizeError e)"
    by (auto simp: fails_with_def retryable_iff split: sum.splits)
  have step: "retry_loop fn rnd m a le sl =
      retry_loop fn rnd m (a + 1) (Some e) (sl @ [retryDelay e a (rnd a)])"
    using lt Suc.prems e r by (intro retry_loop_again) auto
  have d: "d = k - (a + 1)" using Suc.hyps(2) by linarith
  have "\<forall>j. a + 1 \<le> j \<and> j < k \<longrightarrow> fails_with fn j {Network, Timeout, Server, Rate_limit}"
    using Suc.prems(1) by simp
  moreover have "a + 1 \<le> k" using lt by simp
  ultimately obtain le' sl' where
    "retry_loop fn rnd m (a + 1) (Some e) (sl @ [retryDelay e a (rnd a)]) = retry_loop fn rnd m k le' sl'"
    "length sl' = length (sl @ [retryDelay e a (rnd a)]) + (k - (a + 1))"
    using Suc.hyps(1)[OF d, of "Some e" "sl @ [retryDelay e a (rnd a)]"] Suc.prems(3) by blast
  with step lt show ?case by (intro exI[of _ le'] exI[of _ sl']) simp
qed

lemma retry_loop_progress:
  "(int a \<le> m \<longrightarrow> a < calls (retry_loop fn rnd m a le sl)) \<and>
   length sl \<le> length (delays (retry_loop fn rnd m a le sl))"
proof (induction fn rnd m a le sl rule: retry_loop.induct)
  case (1 fn rnd m a le sl)
  show ?case
  proof (cases "int a \<le> m")
    case False
    then show ?thesis by (subst (1 2) retry_loop.simps) (simp add: retry_throw_def Let_def)
  next
    case le: True
    show ?thesis
    proof (cases "fn a")
      case (Inr v)
      with le show ?thesis by (simp add: retry_loop_success)
    next
      case (Inl e)
      show ?thesis
      proof (cases "\<not> retryable (categorizeError e) \<or> m \<le> int a")
        case True
        with le Inl show ?thesis by (simp add: retry_loop_stop retry_throw_def Let_def)
      next
        case False
        with le Inl have ih:
          "(int (a + 1) \<le> m \<longrightarrow>
              a + 1 < calls (retry_loop fn rnd m (a + 1) (Some e) (sl @ [retryDelay e a (rnd a)]))) \<and>
           length (sl @ [retryDelay e a (rnd a)])
             \<le> length (delays (retry_loop fn rnd m (a + 1) (Some e) (sl @ [retryDelay e a (rnd a)])))"
          using "1.IH"[of e] by simp
        from False le Inl have "retry_loop fn rnd m a le sl =
            retry_loop fn rnd m (a + 1) (Some e) (sl @ [retryDelay e a (rnd a)])"
          by (intro retry_loop_again) auto
        with ih False show ?thesis by simp
      qed
    qed
  qed
qed

text \<open>
  Claim C4. For \<open>maxRetries \<ge> 0\<close>, \<^verbatim>\<open>retry\<close> invokes the operation at most
  \<open>maxRetries + 1\<close> times, in attempts 0 to \<open>maxRetries\<close>. If the attempts before \<open>k\<close>
  failed with retryable categories and attempt \<open>k\<close> fails as \<^verbatim>\<open>authentication\<close> or
  \<^verbatim>\<open>bad_request\<close>, then attempt \<open>k\<close> is the last one and the wrapped error is thrown; for
  \<open>k = 0\<close> that is after exactly one attempt. A failure that is \<^verbatim>\<open>network\<close>, \<^verbatim>\<open>timeout\<close>,
  \<^verbatim>\<open>server\<close> or \<^verbatim>\<open>rate_limit\<close> is followed by the next attempt as long as attempts
  remain: if all attempts before \<open>k \<le> maxRetries\<close> failed so, attempt \<open>k\<close> is made, after
  \<open>k\<close> delays. If every attempt fails so, there are \<open>maxRetries + 1\<close> invocations and
  \<open>maxRetries\<close> delays, and the message of the error thrown reports the number of
  attempts made. An operation that fails twice as \<^verbatim>\<open>server\<close> and then succeeds, with
  \<open>maxRetries \<ge> 2\<close>, returns its value after exactly 3 invocations.
\<close>

theorem retry_attempts:
  fixes fn :: "nat \<Rightarrow> js_error + 'a"
  assumes "0 \<le> maxRetries"
  shows
  "calls (retry fn rnd maxRetries) \<le> nat maxRetries + 1 \<and>
   (\<forall>k e. int k \<le> maxRetries \<and> (\<forall>j<k. fails_with fn j {Network, Timeout, Server, Rate_limit}) \<and>
      fn k = Inl e \<and> type (categorizeError e) \<in> {Authentication, Bad_request} \<longrightarrow>
      calls (retry fn rnd maxRetries) = k + 1 \<and>
      outcome (retry fn rnd maxRetries) =
        Inl (''API request failed after '' @ string_of_int (maxRetries + 1) @ '' attempts: ''
              @ message (categorizeError e))) \<and>
   (\<forall>k. int k \<le> maxRetries \<and> (\<forall>j<k. fails_with fn j {Network, Timeout, Server, Rate_limit}) \<longrightarrow>
      k < calls (retry fn rnd maxRetries) \<and> k \<le> length (delays (retry fn rnd maxRetries))) \<and>
   ((\<forall>k. int k \<le> maxRetries \<longrightarrow> fails_with fn k {Network, Timeout, Server, Rate_limit}) \<longrightarrow>
      calls (retry fn rnd maxRetries) = nat maxRetries + 1 \<and>
      length (delays (retry fn rnd maxRetries)) = nat maxRetries \<and>
      (\<exists>e. fn (nat maxRetries) = Inl e \<and>
         outcome (retry fn rnd maxRetries) =
           Inl (''API request failed after ''
                 @ string_of_int (int (calls (retry fn rnd maxRetries)))
                 @ '' attempts: '' @ message (categorizeError e)))) \<and>
   (2 \<le> maxRetries \<and> fails_with fn 0 {Server} \<and> fails_with fn 1 {Server} \<and> fn 2 = Inr v \<longrightarrow>
      outcome (retry fn rnd maxRetries) = Inr v \<and> calls (retry fn rnd maxRetries) = 3)"
proof (intro conjI allI impI)
  show "calls (retry fn rnd maxRetries) \<le> nat maxRetries + 1"
    using retry_loop_calls_le[of fn rnd maxRetries 0 None "[]"] assms
    by (simp add: retry_def nat_add_distrib)
next
  fix k e
  assume h: "int k \<le> maxRetries \<and> (\<forall>j<k. fails_with fn j {Network, Timeout, Server, Rate_limit}) \<and>
      fn k = Inl e \<and> type (categorizeError e) \<in> {Authentication, Bad_request}"
  then obtain le' sl' where r: "retry fn rnd maxRetries = retry_loop fn rnd maxRetries k le' sl'"
    using retry_loop_reaches[of 0 k fn maxRetries rnd None "[]"] by (auto simp: retry_def)
  from h have nr: "\<not> retryable (categorizeError e)" by (auto simp: retryable_iff)
  have st: "retry_loop fn rnd maxRetries k le' sl' = retry_throw maxRetries (Some e) (k + 1) sl'"
    using h nr by (intro retry_loop_stop) auto
  show "calls (retry fn rnd maxRetries) = k + 1"
    using r st by (simp add: retry_throw_def Let_def)
  show "outcome (retry fn rnd maxRetries) =
        Inl (''API request failed after '' @ string_of_int (maxRetries + 1) @ '' attempts: ''
              @ message (categorizeError e))"
    using r st by (simp add: retry_throw_def Let_def)
next
  fix k
  assume h: "int k \<le> maxRetries \<and> (\<forall>j<k. fails_with fn j {Network, Timeout, Server, Rate_limit})"
  then obtain le' sl' where r: "retry fn rnd maxRetries = retry_loop fn rnd maxRetries k le' sl'"
    and l: "length sl' = k"
    using retry_loop_reaches[of 0 k fn maxRetries rnd None "[]"] by (auto simp: retry_def)
  show "k < calls (retry fn rnd maxRetries)"
    using retry_loop_progress[of k maxRetries fn rnd le' sl'] h r by simp
  show "k \<le> length (delays (retry fn rnd maxRetries))"
    using retry_loop_progress[of k maxRetries fn rnd le' sl'] l r by simp
next
  assume h: "\<forall>k. int k \<le> maxRetries \<longrightarrow> fails_with fn k {Network, Timeout, Server, Rate_limit}"
  note a = retry_loop_all_fail[of 0 maxRetries fn rnd None "[]"]
  from h assms have c: "calls (retry fn rnd maxRetries) = nat (maxRetries + 1)"
    and d: "length (delays (retry fn rnd maxRetries)) = nat maxRetries"
    and o: "(case fn (nat maxRetries) of Inl e \<Rightarrow>
      outcome (retry fn rnd maxRetries) =
        Inl (''API request failed after '' @ string_of_int (maxRetries + 1) @ '' attempts: ''
              @ message (categorizeError e)) | Inr v \<Rightarrow> False)"
    unfolding retry_def using a by simp_all
  show "calls (retry fn rnd maxRetries) = nat maxRetries + 1"
    using c assms by (simp add: nat_add_distrib)
  show "length (delays (retry fn rnd maxRetries)) = nat maxRetries" by (rule d)
  have "int (calls (retry fn rnd maxRetries)) = maxRetries + 1" using c assms by simp
  with o show "\<exists>e. fn (nat maxRetries) = Inl e \<and>
         outcome (retry fn rnd maxRetries) =
           Inl (''API request failed after ''
                 @ string_of_int (int (calls (retry fn rnd maxRetries)))
                 @ '' attempts: '' @ message (categorizeError e))"
    by (cases "fn (nat maxRetries)") simp_all
next
  assume h: "2 \<le> maxRetries \<and> fails_with fn 0 {Server} \<and> fails_with fn 1 {Server} \<and> fn 2 = Inr v"
  then have "\<forall>j. 0 \<le> j \<and> j < 2 \<longrightarrow> fails_with fn j {Network, Timeout, Server, Rate_limit}"
    by (auto simp: fails_with_def less_Suc_eq numeral_2_eq_2 split: sum.splits)
  then obtain le' sl' where r: "retry fn rnd maxRetries = retry_loop fn rnd maxRetries 2 le' sl'"
    using retry_loop_reaches[of 0 2 fn maxRetries rnd None "[]"] h by (auto simp: retry_def)
  have "retry_loop fn rnd maxRetries 2 le' sl' = \<lparr>outcome = Inr v, calls = 2 + 1, delays = sl'\<rparr>"
    using h by (intro retry_loop_success) auto
  with r show "outcome (retry fn rnd maxRetries) = Inr v" "calls (retry fn rnd maxRetries) = 3"
    by simp_all
qed

text \<open>
  C4 at \<open>maxRetries = 3\<close>: two failures with status 503 and then a value; a first
  failure with status 401; failures with status 500 only.
\<close>

theorem retry_attempts_witness:
  "(0::int) \<le> 3 \<and>
   retry (fails_first 2 (http_failure 503)) no_jitter 3
     = \<lparr>outcome = Inr ''ok'', calls = 3, delays = [Num 1000, Num 1400]\<rparr> \<and>
   calls (retry (always_fails (http_failure 401)) no_jitter 3) = 1 \<and>
   calls (retry (always_fails (http_failure 500)) no_jitter 3) = 4"
proof -
  let ?f = "fails_first 2 (http_failure 503)"
  let ?g = "always_fails (http_failure 401)"
  let ?h = "always_fails (http_failure 500)"
  have z: "(0::int) \<le> 3" by simp
  have t: "type (categorizeError (http_failure 503)) = Server"
    "type (categorizeError (http_failure 500)) = Server"
    "type (categorizeError (http_failure 401)) = Authentication"
    by (simp_all add: http_failure_def)
  have "outcome (retry ?f no_jitter 3) = Inr ''ok'' \<and> calls (retry ?f no_jitter 3) = 3"
    using retry_attempts[OF z, of ?f no_jitter "''ok''"] t
    by (simp add: fails_with_def fails_first_def)
  moreover have "delays (retry ?f no_jitter 3) = [Num 1000, Num 1400]"
    by (simp add: retry_def retry_loop.simps[of _ _ _ 0] retry_loop.simps[of _ _ _ "Suc 0"]
          retry_loop.simps[of _ _ _ "Suc (Suc 0)"] http_failure_def retryDelay_def calculateBackoff_def
          BASE_DELAY_def MAX_DELAY_def Let_def fails_first_def no_jitter_def)
  moreover have "calls (retry ?g no_jitter 3) = 1"
    using retry_attempts[OF z, of ?g no_jitter "''ok''"] t
    by (auto simp: fails_with_def always_fails_def)
  moreover have "calls (retry ?h no_jitter 3) = 4"
    using retry_attempts[OF z, of ?h no_jitter "''ok''"] t
    by (auto simp: fails_with_def always_fails_def)
  ultimately show ?thesis by (cases "retry ?f no_jitter 3") simp
qed

subsection \<open>The delay of a rate limit (C5)\<close>









lemma rate_limit_has_response:
  "type (categorizeError e) = Rate_limit \<Longrightarrow>
   \<exists>response code msg. e = AxiosError (Some response) code msg \<and> resp_status response = 429"
  by (induction e rule: categorizeError.induct)
     (auto simp: Let_def unknown_details_def split: if_splits)







lemma bit_length_eq: "2 ^ k \<le> n \<Longrightarrow> n < 2 ^ Suc k \<Longrightarrow> bit_length n = Suc k"
proof (induction k arbitrary: n)
  case 0
  then have "n = 1" by simp
  then show ?case by (simp add: bit_length.simps)
next
  case (Suc k)
  from Suc.prems have "2 ^ k \<le> n div 2" and "n div 2 < 2 ^ Suc k" by simp_all
  then have "bit_length (n div 2) = Suc k" by (rule Suc.IH)
  moreover from Suc.prems have "n \<noteq> 0" by auto
  ultimately show ?case by (subst bit_length.simps) simp
qed

text \<open>
  Beyond \<open>2 ^ 53\<close> the delay is the rounded one: a header of \<open>2 ^ 53 + 1\<close> seconds is read
  as \<open>2 ^ 53\<close>.
\<close>

lemma retry_after_rounded:
  "parseInt ''9007199254740993'' = Num 9007199254740992 \<and>
   int_times (parseInt ''9007199254740993'') 1000 = Num 9007199254740992000"
proof -
  have "bit_length 9007199254740993 = Suc 53" by (rule bit_length_eq) simp_all
  then have a: "nearest_double 9007199254740993 = Num 9007199254740992"
    by (simp add: nearest_double_def Let_def)
  have "bit_length 9007199254740992000 = Suc 62" by (rule bit_length_eq) simp_all
  then have b: "nearest_double 9007199254740992000 = Num 9007199254740992000"
    by (simp add: nearest_double_def Let_def)
  have "parseInt ''9007199254740993'' = nearest_double 9007199254740993"
    by (simp add: parseInt_def trimStart_def is_space_def is_digit_def digit_val_def Let_def)
  with a have p: "parseInt ''9007199254740993'' = Num 9007199254740992" by simp
  with b show ?thesis by (simp add: int_times_def)
qed




subsection \<open>The backoff delay and its expectation (C6)\<close>

lemma deriv_x_abs_x: "((\<lambda>x::real. x * \<bar>x\<bar> / 2) has_real_derivative \<bar>x\<bar>) (at x)"
proof -
  consider "x > 0" | "x < 0" | "x = 0" by linarith
  then show ?thesis
  proof cases
    case 1
    have e: "\<forall>\<^sub>F y in nhds x. y * \<bar>y\<bar> / 2 = y * y / 2"
      using eventually_nhds_in_open[of "{0<..}" x] 1 by (auto elim: eventually_mono)
    have "((\<lambda>y::real. y * y / 2) has_real_derivative \<bar>x\<bar>) (at x)"
      using 1 by (auto intro!: derivative_eq_intros)
    then show ?thesis using DERIV_cong_ev[OF refl e refl] by simp
  next
    case 2
    have e: "\<forall>\<^sub>F y in nhds x. y * \<bar>y\<bar> / 2 = - (y * y) / 2"
      using eventually_nhds_in_open[of "{..<0}" x] 2 by (auto elim: eventually_mono)
    have "((\<lambda>y::real. - (y * y) / 2) has_real_derivative \<bar>x\<bar>) (at x)"
      using 2 by (auto intro!: derivative_eq_intros)
    then show ?thesis using DERIV_cong_ev[OF refl e refl] by simp
  next
    case 3
    have f: "(\<lambda>h::real. (h * \<bar>h\<bar> / 2) / h) = (\<lambda>h. \<bar>h\<bar> / 2)" by (rule ext) simp
    have "(\<lambda>h::real. \<bar>h\<bar> / 2) \<midarrow>0\<rightarrow> 0"
      by (rule tendsto_eq_intros | simp)+
    then show ?thesis using 3 f by (simp add: DERIV_def)
  qed
qed

lemma deriv_abs_linear:
  assumes "b \<noteq> 0"
  shows "((\<lambda>u::real. (a + b * u - c) * \<bar>a + b * u - c\<bar> / 2 / b) has_real_derivative \<bar>a + b * u - c\<bar>) (at u)"
proof -
  have "((\<lambda>u. (\<lambda>y::real. y * \<bar>y\<bar> / 2) (a + b * u - c)) has_real_derivative \<bar>a + b * u - c\<bar> * b) (at u)"
    by (rule DERIV_chain2[OF deriv_x_abs_x]) (auto intro!: derivative_eq_intros)
  then have "((\<lambda>u. (a + b * u - c) * \<bar>a + b * u - c\<bar> / 2 / b) has_real_derivative \<bar>a + b * u - c\<bar> * b / b) (at u)"
    by (rule DERIV_cdivide)
  with assms show ?thesis by simp
qed

lemma clamp_abs: "lo \<le> hi \<Longrightarrow> min hi (max lo x) = (lo + hi + \<bar>x - lo\<bar> - \<bar>x - hi\<bar>) / (2::real)"
  by (auto simp: min_def max_def abs_if)

lemma backoff_integral_deriv:
  assumes "e > 0"
  shows "(backoff_integral e has_real_derivative min 10000 (max 1000 (e * (1 + (u * 0.6 - 0.3))))) (at u)"
proof -
  have b: "0.6 * e \<noteq> 0" using assms by simp
  have x: "e * (1 + (u * 0.6 - 0.3)) = 0.7 * e + 0.6 * e * u" by (simp add: algebra_simps)
  have d: "(backoff_integral e has_real_derivative
           ((1000 + 10000) + \<bar>0.7 * e + 0.6 * e * u - 1000\<bar> - \<bar>0.7 * e + 0.6 * e * u - 10000\<bar>) / 2) (at u)"
    unfolding backoff_integral_def
    by (rule derivative_eq_intros deriv_abs_linear[OF b] refl | simp)+
  have c: "min 10000 (max 1000 (e * (1 + (u * 0.6 - 0.3)))) =
           ((1000 + 10000) + \<bar>0.7 * e + 0.6 * e * u - 1000\<bar> - \<bar>0.7 * e + 0.6 * e * u - 10000\<bar>) / 2"
    unfolding x by (subst clamp_abs) simp_all
  show ?thesis unfolding c by (rule d)
qed

lemma calculateBackoff_mean:
  "mean_on_unit (calculateBackoff N)
     (backoff_integral (min 10000 (1000 * 2 ^ N)) 1 - backoff_integral (min 10000 (1000 * 2 ^ N)) 0)"
proof -
  let ?e = "min 10000 (1000 * 2 ^ N) :: real"
  have e: "?e > 0" by simp
  have "\<forall>u. (backoff_integral ?e has_real_derivative calculateBackoff N u) (at u)"
    using backoff_integral_deriv[OF e]
    by (simp add: calculateBackoff_def Let_def BASE_DELAY_def MAX_DELAY_def)
  then show ?thesis unfolding mean_on_unit_def by blast
qed

lemma exp_clamped: "4 \<le> N \<Longrightarrow> min 10000 (1000 * 2 ^ N) = (10000::real)"
proof -
  assume "4 \<le> N"
  then have "(2::real) ^ 4 \<le> 2 ^ N" by (intro power_increasing) simp_all
  then show ?thesis by simp
qed

lemma backoff_means:
  "mean_on_unit (calculateBackoff 0) 1075"
  "mean_on_unit (calculateBackoff 1) 2000"
  "mean_on_unit (calculateBackoff 2) 4000"
  "mean_on_unit (calculateBackoff 3) (23950 / 3)"
  "4 \<le> N \<Longrightarrow> mean_on_unit (calculateBackoff N) 9250"
  using calculateBackoff_mean[of 0] calculateBackoff_mean[of 1] calculateBackoff_mean[of 2]
    calculateBackoff_mean[of 3] calculateBackoff_mean[of N]
  by (simp_all add: exp_clamped backoff_integral_def)

lemma mean_on_unit_unique:
  assumes "mean_on_unit f m" and "mean_on_unit f m'"
  shows "m = m'"
proof -
  from assms obtain F G where F: "\<forall>u. (F has_real_derivative f u) (at u)" "m = F 1 - F 0"
    and G: "\<forall>u. (G has_real_derivative f u) (at u)" "m' = G 1 - G 0"
    unfolding mean_on_unit_def by blast
  have "\<forall>u. ((\<lambda>u. F u - G u) has_real_derivative 0) (at u)"
    using F(1) G(1) by (auto intro!: derivative_eq_intros)
  then have "F 1 - G 1 = F 0 - G 0"
    using DERIV_isconst_all[of "\<lambda>u. F u - G u" 1 0] by simp
  with F(2) G(2) show ?thesis by simp
qed

lemma backoff_mean_increases:
  assumes "n < m" and "n \<le> 3"
    and "mean_on_unit (calculateBackoff n) e" and "mean_on_unit (calculateBackoff m) e'"
  shows "e < e'"
proof -
  note u = mean_on_unit_unique[OF assms(3)]
  note u' = mean_on_unit_unique[OF assms(4)]
  have l0: "n = 0 \<Longrightarrow> e = 1075" using u[of 1075] backoff_means(1) by simp
  have l1: "n = 1 \<Longrightarrow> e = 2000" using u[of 2000] backoff_means(2) by simp
  have l2: "n = 2 \<Longrightarrow> e = 4000" using u[of 4000] backoff_means(3) by simp
  have l3: "n = 3 \<Longrightarrow> e = 23950 / 3" using u[of "23950 / 3"] backoff_means(4) by simp
  have h1: "m = 1 \<Longrightarrow> e' = 2000" using u'[of 2000] backoff_means(2) by simp
  have h2: "m = 2 \<Longrightarrow> e' = 4000" using u'[of 4000] backoff_means(3) by simp
  have h3: "m = 3 \<Longrightarrow> e' = 23950 / 3" using u'[of "23950 / 3"] backoff_means(4) by simp
  have h4: "4 \<le> m \<Longrightarrow> e' = 9250" using u'[of 9250] backoff_means(5)[of m] by simp
  from assms(2) consider "n = 0" | "n = 1" | "n = 2" | "n = 3" by linarith
  then show ?thesis
  proof cases
    case 1
    with assms(1) consider "m = 1" | "m = 2" | "m = 3" | "4 \<le> m" by linarith
    then show ?thesis using l0[OF 1] h1 h2 h3 h4 by cases simp_all
  next
    case 2
    with assms(1) consider "m = 2" | "m = 3" | "4 \<le> m" by linarith
    then show ?thesis using l1[OF 2] h2 h3 h4 by cases simp_all
  next
    case 3
    with assms(1) consider "m = 3" | "4 \<le> m" by linarith
    then show ?thesis using l2[OF 3] h3 h4 by cases simp_all
  next
    case 4
    with assms(1) have "4 \<le> m" by linarith
    then show ?thesis using l3[OF 4] h4 by simp
  qed
qed

text \<open>
  Claim C6. For every attempt \<open>N\<close> and every draw of \<^verbatim>\<open>Math.random\<close> in \<open>[0, 1)\<close>, the
  delay is \<open>min(10000, 1000 * 2^N)\<close> times \<open>1 + j\<close> for a \<open>j\<close> in \<open>[-0.3, 0.3]\<close>,
  clamped to \<open>[1000, 10000]\<close>, so it lies between \<^verbatim>\<open>BASE_DELAY\<close> and \<^verbatim>\<open>MAX_DELAY\<close>. Its
  expectation over the draw is 1075, 2000, 4000 and 23950/3 for the attempts 0 to 3 and
  9250 from attempt 4 on, where the exponential delay is clamped: the expectation
  increases strictly from an attempt \<open>n \<le> 3\<close> to every later one.
\<close>

theorem calculateBackoff_range:
  assumes "0 \<le> random" and "random < 1"
  shows "(\<exists>j. - 0.3 \<le> j \<and> j \<le> 0.3 \<and>
            calculateBackoff N random = min 10000 (max 1000 (min 10000 (1000 * 2 ^ N) * (1 + j)))) \<and>
         BASE_DELAY = 1000 \<and> MAX_DELAY = 10000 \<and>
         BASE_DELAY \<le> calculateBackoff N random \<and> calculateBackoff N random \<le> MAX_DELAY \<and>
         mean_on_unit (calculateBackoff 0) 1075 \<and>
         mean_on_unit (calculateBackoff 1) 2000 \<and>
         mean_on_unit (calculateBackoff 2) 4000 \<and>
         mean_on_unit (calculateBackoff 3) (23950 / 3) \<and>
         (\<forall>n\<ge>4. mean_on_unit (calculateBackoff n) 9250) \<and>
         (\<forall>n m e e'. n < m \<and> n \<le> 3 \<and> mean_on_unit (calculateBackoff n) e \<and>
            mean_on_unit (calculateBackoff m) e' \<longrightarrow> e < e')"
proof (intro conjI allI impI)
  have "- 0.3 \<le> random * 0.6 - 0.3 \<and> random * 0.6 - 0.3 \<le> 0.3" using assms by simp
  then show "\<exists>j. - 0.3 \<le> j \<and> j \<le> 0.3 \<and>
            calculateBackoff N random = min 10000 (max 1000 (min 10000 (1000 * 2 ^ N) * (1 + j)))"
    by (intro exI[of _ "random * 0.6 - 0.3"])
       (simp add: calculateBackoff_def Let_def BASE_DELAY_def MAX_DELAY_def)
next
  show "BASE_DELAY = 1000" by (simp add: BASE_DELAY_def)
next
  show "MAX_DELAY = 10000" by (simp add: MAX_DELAY_def)
next
  show "BASE_DELAY \<le> calculateBackoff N random"
    by (simp add: calculateBackoff_def Let_def BASE_DELAY_def MAX_DELAY_def)
next
  show "calculateBackoff N random \<le> MAX_DELAY"
    by (simp add: calculateBackoff_def Let_def BASE_DELAY_def MAX_DELAY_def)
next
  show "mean_on_unit (calculateBackoff 0) 1075" by (rule backoff_means(1))
next
  show "mean_on_unit (calculateBackoff 1) 2000" by (rule backoff_means(2))
next
  show "mean_on_unit (calculateBackoff 2) 4000" by (rule backoff_means(3))
next
  show "mean_on_unit (calculateBackoff 3) (23950 / 3)" by (rule backoff_means(4))
next
  fix n :: nat
  assume "4 \<le> n"
  then show "mean_on_unit (calculateBackoff n) 9250" by (rule backoff_means(5))
next
  fix n m :: nat and e e' :: real
  assume "n < m \<and> n \<le> 3 \<and> mean_on_unit (calculateBackoff n) e \<and>
            mean_on_unit (calculateBackoff m) e'"
  then show "e < e'" using backoff_mean_increases[of n m e e'] by simp
qed

text \<open>C6 at attempt 2 and the draw 1/2.\<close>

theorem calculateBackoff_range_witness:
  "(0::real) \<le> 1/2 \<and> (1/2::real) < 1 \<and>
   BASE_DELAY \<le> calculateBackoff 2 (1/2) \<and> calculateBackoff 2 (1/2) \<le> MAX_DELAY \<and>
   calculateBackoff 2 (1/2) = 4000 \<and>
   mean_on_unit (calculateBackoff 2) 4000"
proof -
  have a: "(0::real) \<le> 1/2" and b: "(1/2::real) < 1" by simp_all
  have c: "calculateBackoff 2 (1/2) = 4000"
    by (simp add: calculateBackoff_def Let_def BASE_DELAY_def MAX_DELAY_def)
  note t = calculateBackoff_range[OF a b, of 2]
  note t4 = t[THEN conjunct2, THEN conjunct2, THEN conjunct2]
  have "BASE_DELAY \<le> calculateBackoff 2 (1/2)" by (rule t4[THEN conjunct1])
  moreover have "calculateBackoff 2 (1/2) \<le> MAX_DELAY" by (rule t4[THEN conjunct2, THEN conjunct1])
  moreover have "mean_on_unit (calculateBackoff 2) 4000"
    by (rule t4[THEN conjunct2, THEN conjunct2, THEN conjunct2, THEN conjunct2, THEN conjunct1])
  ultimately show ?thesis using a b c by simp
qed

subsection \<open>The bound on concurrent local inferences (C2)\<close>

lemma enter_cases:
  "runInference_enter rid g =
     (if activeInferences g \<ge> 4 then
        (Some \<lparr>generatedText = [], error = Some busy_message, finishReason = Some FR_error,
                requestId = rid, latency = Some 0\<rparr>, g\<lparr>inferenceCount := inferenceCount g + 1\<rparr>)
      else (None, g\<lparr>inferenceCount := inferenceCount g + 1, activeInferences := activeInferences g + 1\<rparr>))"
  by (simp add: runInference_enter_def Let_def MAX_CONCURRENT_INFERENCES_def)

lemma chat_enter_cases:
  "runChatInference_enter rid h g =
     (if activeInferences g \<ge> 4 then
        (Some \<lparr>generatedText = [], error = Some busy_message, finishReason = Some FR_error,
                requestId = rid, latency = Some 0, updatedConversation = h, sourceType = ''local''\<rparr>,
         g\<lparr>inferenceCount := inferenceCount g + 1\<rparr>)
      else (None, g\<lparr>inferenceCount := inferenceCount g + 1, activeInferences := activeInferences g + 1\<rparr>))"
  by (simp add: runChatInference_enter_def Let_def MAX_CONCURRENT_INFERENCES_def)

lemma leave_active:
  "activeInferences (snd (runInference_leave rid e body g)) = activeInferences g - 1"
  "activeInferences (snd (runChatInference_leave rid h e n body g)) = activeInferences g - 1"
  by (simp_all add: runInference_leave_def runChatInference_leave_def Let_def)

lemma sys_enter_active:
  "activeInferences (gate (sys_enter call s)) =
     (if activeInferences (gate s) \<ge> 4 then activeInferences (gate s) else activeInferences (gate s) + 1)"
  "in_flight (sys_enter call s) =
     (if activeInferences (gate s) \<ge> 4 then in_flight s else in_flight s @ [call])"
  by (cases call; simp add: sys_enter_def enter_cases chat_enter_cases)+

lemma sys_leave_active:
  "activeInferences (gate (sys_leave i e n body s)) = activeInferences (gate s) - 1"
  "in_flight (sys_leave i e n body s) = take i (in_flight s) @ drop (Suc i) (in_flight s)"
  by (cases "in_flight s ! i"; simp add: sys_leave_def leave_active)+

lemma reachable_inv:
  "reachable s \<Longrightarrow> activeInferences (gate s) = int (length (in_flight s)) \<and> activeInferences (gate s) \<le> 4"
proof (induction rule: reachable.induct)
  case start
  then show ?case by (simp add: gate_start_def)
next
  case (enter s call)
  then show ?case by (simp add: sys_enter_active)
next
  case (leave s i elapsed now body)
  then show ?case by (simp add: sys_leave_active min_def)
qed

text \<open>
  Claim C2. In every reachable state of the gate the number of active inferences is the
  number of calls that are suspended, and it is between 0 and the maximum, 4. At the
  maximum, a call of \<^verbatim>\<open>runInference\<close> or \<^verbatim>\<open>runChatInference\<close> returns at once a response
  with the busy message and \<^verbatim>\<open>finishReason\<close> \<^verbatim>\<open>error\<close>, and neither the count nor the
  suspended calls change. Below the maximum, a call is admitted and the count goes up by
  one. When a suspended call completes, with a text or with an exception, the count goes
  down by exactly one and the call is no longer suspended, so it cannot complete again;
  the count stays non-negative. A call that runs alone leaves the count as it found it.
\<close>

theorem active_inferences_bounded:
  assumes "reachable s"
  shows "0 \<le> activeInferences (gate s) \<and> activeInferences (gate s) \<le> MAX_CONCURRENT_INFERENCES \<and>
         MAX_CONCURRENT_INFERENCES = 4 \<and>
         activeInferences (gate s) = int (length (in_flight s)) \<and>
         (activeInferences (gate s) = MAX_CONCURRENT_INFERENCES \<longrightarrow>
            (\<forall>rid. \<exists>r. fst (runInference_enter rid (gate s)) = Some r \<and>
                error r = Some busy_message \<and> finishReason r = Some FR_error \<and>
                activeInferences (snd (runInference_enter rid (gate s))) = activeInferences (gate s) \<and>
                in_flight (sys_enter (Completion rid) s) = in_flight s) \<and>
            (\<forall>rid h. \<exists>r. fst (runChatInference_enter rid h (gate s)) = Some r \<and>
                error r = Some busy_message \<and> finishReason r = Some FR_error \<and>
                activeInferences (snd (runChatInference_enter rid h (gate s))) = activeInferences (gate s) \<and>
                in_flight (sys_enter (Chat rid h) s) = in_flight s)) \<and>
         (activeInferences (gate s) < MAX_CONCURRENT_INFERENCES \<longrightarrow>
            (\<forall>call. activeInferences (gate (sys_enter call s)) = activeInferences (gate s) + 1 \<and>
                   in_flight (sys_enter call s) = in_flight s @ [call])) \<and>
         (\<forall>i elapsed now body. i < length (in_flight s) \<longrightarrow>
            activeInferences (gate (sys_leave i elapsed now body s)) = activeInferences (gate s) - 1 \<and>
            in_flight (sys_leave i elapsed now body s) = take i (in_flight s) @ drop (Suc i) (in_flight s) \<and>
            length (in_flight (sys_leave i elapsed now body s)) = length (in_flight s) - 1 \<and>
            0 \<le> activeInferences (gate (sys_leave i elapsed now body s))) \<and>
         (\<forall>rid elapsed body. activeInferences (snd (runInference rid elapsed body (gate s))) = activeInferences (gate s)) \<and>
         (\<forall>rid h elapsed now body.
            activeInferences (snd (runChatInference rid h elapsed now body (gate s))) = activeInferences (gate s))"
proof -
  note ri = reachable_inv[OF assms]
  have a: "0 \<le> activeInferences (gate s)" using ri by simp
  show ?thesis
    using ri a
    by (auto simp: MAX_CONCURRENT_INFERENCES_def enter_cases chat_enter_cases sys_enter_active
        sys_leave_active busy_message_def runInference_def runChatInference_def leave_active
        split: prod.splits option.splits)
qed

text \<open>C2 in the state with four suspended calls.\<close>

theorem active_inferences_bounded_witness:
  "reachable four_in_flight \<and>
   activeInferences (gate four_in_flight) = 4 \<and>
   in_flight four_in_flight = [Completion ''a'', Chat ''b'' [], Completion ''c'', Chat ''d'' []] \<and>
   in_flight (sys_enter (Completion ''e'') four_in_flight) = in_flight four_in_flight \<and>
   activeInferences (gate (sys_leave 1 500 0 (Inl ''No model currently loaded'') four_in_flight)) = 3"
proof -
  have r: "reachable four_in_flight"
    unfolding four_in_flight_def by (intro reachable.intros)
  have v: "activeInferences (gate four_in_flight) = 4"
    "in_flight four_in_flight = [Completion ''a'', Chat ''b'' [], Completion ''c'', Chat ''d'' []]"
    by (simp_all add: four_in_flight_def sys_enter_def runInference_enter_def
        runChatInference_enter_def gate_start_def MAX_CONCURRENT_INFERENCES_def Let_def)
  note t = active_inferences_bounded[OF r]
  from t v have "\<forall>rid. \<exists>r. fst (runInference_enter rid (gate four_in_flight)) = Some r \<and>
                error r = Some busy_message \<and> finishReason r = Some FR_error \<and>
                activeInferences (snd (runInference_enter rid (gate four_in_flight))) = activeInferences (gate four_in_flight) \<and>
                in_flight (sys_enter (Completion rid) four_in_flight) = in_flight four_in_flight"
    by (simp add: MAX_CONCURRENT_INFERENCES_def)
  then have "in_flight (sys_enter (Completion ''e'') four_in_flight) = in_flight four_in_flight"
    by blast
  moreover from t have "\<forall>i elapsed now body. i < length (in_flight four_in_flight) \<longrightarrow>
            activeInferences (gate (sys_leave i elapsed now body four_in_flight))
              = activeInferences (gate four_in_flight) - 1"
    by blast
  then have
    "activeInferences (gate (sys_leave 1 500 0 (Inl ''No model currently loaded'') four_in_flight)) = 3"
    using v by simp
  ultimately show ?thesis using r v by simp
qed

subsection \<open>Failure of a model load (C10)\<close>

lemma releaseResources_released: "\<not> resourcesAllocated (releaseResources rm)"
  by (simp add: releaseResources_def)

text \<open>
  Claim C10, as amended. If a call of \<^verbatim>\<open>loadModel\<close> that is made while no load is in
  progress fails, then afterwards no model is loaded, the metadata is \<^verbatim>\<open>null\<close>, the
  resource manager holds no allocation, \<^verbatim>\<open>isLoading\<close> is false, the error raised is the one
  that was thrown inside \<^verbatim>\<open>try\<close>, and the guard lets every later call pass.
\<close>

theorem loadModel_failure_cleans_up:
  assumes "\<not> isLoading (fst st)"
    and "loadModel env path_arg st = (Inl err, this', rm')"
  shows "\<not> isModelLoaded this' \<and> getModelMetadata this' = None \<and>
         \<not> resourcesAllocated rm' \<and> \<not> isLoading this' \<and>
         fst (loadModel_try env path_arg (loadModel_begin st)) = Inl err \<and>
         (\<forall>env2 path2. loadModel env2 path2 (this', rm') = loadModel_run env2 path2 (this', rm'))"
  using assms
  by (auto simp: loadModel_def loadModel_run_def loadModel_begin_def isModelLoaded_def getModelMetadata_def
      releaseResources_released split: prod.splits sum.splits)

lemmas load_defs = loadModel_def loadModel_run_def loadModel_try_def loadModel_begin_def
  checkResources_def calculateRequiredMemory_def allocateResources_def releaseResources_def
  checkGPUAvailability_def SYSTEM_MEMORY_BUFFER_def MINIMUM_MEMORY_REQUIRED_def
  MAX_CPU_USAGE_PERCENT_def Let_def

lemma loadModel_sample_ok: "loadModel sample_env None fresh_loader = (Inr (), loaded_state)"
  by (simp add: load_defs sample_env_def fresh_loader_def sample_metadata_def sample_os_def loaded_state_def)

lemma loadModel_sample_null_metadata:
  "loadModel sample_env (Some ''/models/broken'') loaded_state =
     (Inl ''Cannot read properties of null (reading 'name')'',
      \<lparr>currentModel = None, modelPath = ''/models/broken'', modelMetadata = None,
       isLoading = False, lastLoadTime = 1700000000000\<rparr>,
      \<lparr>resourcesAllocated = False, reservedCores = 0, reservedMemory = 0, usingGPU = False\<rparr>)"
  by (simp add: load_defs sample_env_def sample_metadata_def sample_os_def loaded_state_def)

text \<open>
  C10 as amended, for a model directory whose \<^verbatim>\<open>metadata.json\<close> holds \<^verbatim>\<open>null\<close>: the load
  fails after the resources are allocated, and they are released.
\<close>

theorem loadModel_failure_cleans_up_witness:
  "\<not> isLoading (fst loaded_state) \<and>
   fst (loadModel sample_env (Some ''/models/broken'') loaded_state)
     = Inl ''Cannot read properties of null (reading 'name')'' \<and>
   \<not> isModelLoaded (fst (snd (loadModel sample_env (Some ''/models/broken'') loaded_state))) \<and>
   \<not> resourcesAllocated (snd (snd (loadModel sample_env (Some ''/models/broken'') loaded_state))) \<and>
   \<not> isLoading (fst (snd (loadModel sample_env (Some ''/models/broken'') loaded_state)))"
proof -
  have g: "\<not> isLoading (fst loaded_state)" by (simp add: loaded_state_def)
  note t = loadModel_failure_cleans_up[OF g loadModel_sample_null_metadata]
  from t g show ?thesis by (simp add: loadModel_sample_null_metadata)
qed

text \<open>
  Claim C10 as stated covers every failure of \<^verbatim>\<open>loadModel\<close>. After a model is loaded, a
  second load begins and is suspended; a third call made meanwhile fails at the guard,
  and after it the model is still loaded, its metadata and resources are still held and
  \<^verbatim>\<open>isLoading\<close> is still true.
\<close>

theorem loadModel_guard_counterexample:
  "loadModel sample_env None fresh_loader = (Inr (), loaded_state) \<and>
   loadModel sample_env (Some ''/models/other'') (loadModel_begin loaded_state)
     = (Inl ''Model loading already in progress'', loadModel_begin loaded_state) \<and>
   isModelLoaded (fst (loadModel_begin loaded_state)) \<and>
   getModelMetadata (fst (loadModel_begin loaded_state)) \<noteq> None \<and>
   resourcesAllocated (snd (loadModel_begin loaded_state)) \<and>
   isLoading (fst (loadModel_begin loaded_state))"
  by (simp add: loadModel_sample_ok)
     (simp add: loadModel_def loadModel_begin_def loaded_state_def isModelLoaded_def getModelMetadata_def)

subsection \<open>Failures of a dispatch (C1)\<close>




















subsection \<open>Source selection (C7)\<close>











subsection \<open>Code extraction (C9)\<close>

text \<open>The scenario of C9 with a fenced block: both extractions return the code and \<^verbatim>\<open>python\<close>.\<close>

lemma extract_python_scenario:
  "extractCodeFromResponse python_block None
     = (''def f():'' @ [CHR 0x0A] @ ''    return 1'', Some ''python'') \<and>
   extractCodeFromMessage python_block
     = (''def f():'' @ [CHR 0x0A] @ ''    return 1'', Some ''python'')"
  by code_simp

lemma plain_answer_no_fence: "codeBlock_exec plain_answer = None"
  by code_simp

lemma plain_answer_not_code: "looksLikeCode plain_answer = False"
  by code_simp

lemma plain_answer_trimmed: "trim plain_answer = ''Hi there!''"
  by code_simp

text \<open>
  Claim C9 says that a text without a fenced block that does not look like code is
  passed through unchanged. For the text \<^verbatim>\<open>"Hi there!\n"\<close> the pattern finds no block
  and \<^verbatim>\<open>looksLikeCode\<close> is false, and \<^verbatim>\<open>extractCodeFromResponse\<close> returns the trimmed text
  as code, which is neither the text nor empty; \<^verbatim>\<open>processResponse\<close> then puts it in the
  place of the generated text. \<^verbatim>\<open>extractCodeFromMessage\<close> finds no code in the same text.
\<close>

theorem extractCodeFromResponse_plain_text_changed:
  "codeBlock_exec plain_answer = None \<and> \<not> looksLikeCode plain_answer \<and>
   extractCodeFromResponse plain_answer None = (''Hi there!'', None) \<and>
   fst (extractCodeFromResponse plain_answer None) \<noteq> plain_answer \<and>
   fst (extractCodeFromResponse plain_answer None) \<noteq> [] \<and>
   generatedText
     (processResponse prettier
        \<lparr>generatedText = plain_answer, error = None, finishReason = Some FR_stop,
         requestId = ''r1'', latency = None\<rparr>
        \<lparr>po_language = None, po_formatCode = None\<rparr>) = ''Hi there!'' \<and>
   extractCodeFromMessage plain_answer = ([], None)"
proof -
  have e: "extractCodeFromResponse plain_answer None = (''Hi there!'', None)"
    by (simp add: extractCodeFromResponse_def plain_answer_no_fence plain_answer_not_code
        plain_answer_trimmed)
  have n: "''Hi there!'' \<noteq> plain_answer" by (simp add: plain_answer_def)
  have p: "plain_answer \<noteq> []" by (simp add: plain_answer_def)
  have m: "extractCodeFromMessage plain_answer = ([], None)" by code_simp
  show ?thesis
    using e n p m
    by (simp add: plain_answer_no_fence plain_answer_not_code processResponse_def formatCode_def
        js_or_def Let_def)
qed

subsection \<open>Saving and loading the sessions (C8)\<close>

lemma map_set_new: "k \<notin> fst ` set m \<Longrightarrow> map_set k v m = m @ [(k, v)]"
  by (induction m) auto

lemma map_set_keys:
  "map fst (map_set k v m) = (if k \<in> fst ` set m then map fst m else map fst m @ [k])"
  by (induction m) auto

lemma map_set_set: "set (map_set k v m) \<subseteq> insert (k, v) (set m)"
  by (induction m) auto

lemma map_set_mem: "(k, v) \<in> set (map_set k v m)"
  by (induction m) auto

lemma map_has_iff: "map_has k m \<longleftrightarrow> k \<in> fst ` set m"
  by (simp add: map_has_def map_of_eq_None_iff)

lemma fold_map_set_append:
  "distinct (map fst xs) \<Longrightarrow> fst ` set xs \<inter> fst ` set acc = {} \<Longrightarrow>
   fold (\<lambda>e obj. map_set (fst e) (snd e) obj) xs acc = acc @ xs"
proof (induction xs arbitrary: acc)
  case Nil
  then show ?case by simp
next
  case (Cons x xs)
  have n: "fst x \<notin> fst ` set acc" using Cons.prems(2) by auto
  have s: "map_set (fst x) (snd x) acc = acc @ [x]" using map_set_new[OF n, of "snd x"] by simp
  have "fst ` set xs \<inter> fst ` set (acc @ [x]) = {}" using Cons.prems by auto
  with Cons.IH[of "acc @ [x]"] Cons.prems(1) s show ?case by simp
qed

lemma fold_by_id:
  "\<forall>e \<in> set xs. session_id (snd e) = fst e \<Longrightarrow>
   fold (\<lambda>session m. map_set (session_id session) session m) (map snd xs) acc
     = fold (\<lambda>e obj. map_set (fst e) (snd e) obj) xs acc"
  by (induction xs arbitrary: acc) simp_all

lemma save_load_roundtrip:
  assumes "store_inv this"
  shows "loadSessions (saveSessions this globalState) new_controller = this"
proof -
  from assms have d: "distinct (map fst (sessions this))"
    and i: "\<forall>e \<in> set (sessions this). session_id (snd e) = fst e"
    and ne: "\<forall>e \<in> set (sessions this). fst e \<noteq> []"
    by (auto simp: store_inv_def)
  have obj: "fold (\<lambda>e obj. map_set (fst e) (snd e) obj) (sessions this) [] = sessions this"
    using fold_map_set_append[OF d, of "[]"] by simp
  have ld: "fold (\<lambda>session m. map_set (session_id session) session m) (map snd (sessions this)) []
      = sessions this"
    using fold_by_id[OF i, of "[]"] obj by simp
  show ?thesis
  proof (cases "activeSession this")
    case None
    with assms have e: "sessions this = []" by (simp add: store_inv_def)
    with None show ?thesis
      by (cases this)
         (auto simp: loadSessions_def saveSessions_def new_controller_def Let_def map_has_def
            getAllSessions_def split: option.splits)
  next
    case (Some a)
    with assms have m: "a \<in> fst ` set (sessions this)" by (simp add: store_inv_def)
    with ne have a: "a \<noteq> []" by auto
    from m have h: "map_has a (sessions this)" by (simp add: map_has_iff)
    show ?thesis
      using Some a h obj ld
      by (cases this) (simp add: loadSessions_def saveSessions_def new_controller_def Let_def)
  qed
qed

lemma map_set_key_set: "fst ` set (map_set k v m) = insert k (fst ` set m)"
proof -
  have "fst ` set (map_set k v m) = set (map fst (map_set k v m))" by simp
  also have "\<dots> = insert k (fst ` set m)" by (auto simp: map_set_keys)
  finally show ?thesis .
qed

lemma map_set_distinct: "distinct (map fst m) \<Longrightarrow> distinct (map fst (map_set k v m))"
  by (auto simp: map_set_keys)

lemma inv_set_entry:
  assumes "store_inv this" and "session_id s = k" and "k \<noteq> []"
    and "activeSession this \<noteq> None \<or> a \<noteq> None"
  shows "store_inv (this\<lparr>sessions := map_set k s (sessions this),
                          activeSession := (case a of None \<Rightarrow> activeSession this | Some x \<Rightarrow> Some k)\<rparr>)"
proof -
  have e: "\<forall>e \<in> set (map_set k s (sessions this)). session_id (snd e) = fst e \<and> fst e \<noteq> []"
    using assms(1,2,3) map_set_set[of k s "sessions this"] by (auto simp: store_inv_def)
  show ?thesis
    using assms e
    by (auto simp: store_inv_def map_set_distinct map_set_key_set split: option.splits)
qed

lemma inv_update_entry:
  assumes "store_inv this" and "map_of (sessions this) k = Some s" and "session_id s' = session_id s"
  shows "store_inv (this\<lparr>sessions := map_set k s' (sessions this)\<rparr>)"
proof -
  from assms(2) have m: "(k, s) \<in> set (sessions this)" by (rule map_of_SomeD)
  with assms(1) have k: "session_id s = k" "k \<noteq> []" by (auto simp: store_inv_def)
  from m assms(1) have a: "activeSession this \<noteq> None" by (auto simp: store_inv_def split: option.splits)
  from inv_set_entry[OF assms(1), of s' k None] k a assms(3) show ?thesis by simp
qed

lemma inv_push_message: "store_inv this \<Longrightarrow> store_inv (push_message k msg this)"
  by (auto simp: push_message_def intro: inv_update_entry split: option.splits)

lemma inv_create:
  assumes "store_inv this" and "uuid \<noteq> []"
  shows "store_inv (snd (createSession t sm uuid uuid2 clock this))"
  using inv_set_entry[OF assms(1), of _ uuid "Some uuid"] assms(2)
  by (simp add: createSession_def Let_def)

lemma inv_set_active:
  "store_inv this \<Longrightarrow> setActiveSession k this = Inr this' \<Longrightarrow> store_inv this'"
  by (force simp: setActiveSession_def store_inv_def map_has_iff split: if_splits)

lemma inv_update:
  assumes "store_inv this" and "updateSession k updates uuid clock clock2 this = Inr this'"
  shows "store_inv this'"
proof -
  from assms(2) obtain s where s: "map_of (sessions this) k = Some s"
    by (auto simp: updateSession_def split: option.splits)
  with assms(2) obtain s' where "this' = this\<lparr>sessions := map_set k s' (sessions this)\<rparr>"
    and "session_id s' = session_id s"
    by (auto simp: updateSession_def Let_def split: option.splits if_splits)
  with inv_update_entry[OF assms(1) s] show ?thesis by simp
qed

lemma inv_clear:
  assumes "store_inv this" and "clearSessionHistory k clock this = Inr this'"
  shows "store_inv this'"
proof -
  from assms(2) obtain s where s: "map_of (sessions this) k = Some s"
    by (auto simp: clearSessionHistory_def split: option.splits)
  with assms(2) obtain s' where "this' = this\<lparr>sessions := map_set k s' (sessions this)\<rparr>"
    and "session_id s' = session_id s"
    by (auto simp: clearSessionHistory_def Let_def split: option.splits)
  with inv_update_entry[OF assms(1) s] show ?thesis by simp
qed

lemma getAllSessions_set: "set (getAllSessions this) = snd ` set (sessions this)"
  by (simp add: getAllSessions_def)

lemma inv_delete:
  assumes "store_inv this" and "deleteSession k this = Inr this'"
  shows "store_inv this'"
proof -
  let ?m = "map_delete k (sessions this)"
  let ?t = "this\<lparr>sessions := ?m\<rparr>"
  have d: "distinct (map fst ?m)" using assms(1)
    by (simp add: store_inv_def map_delete_def distinct_map_filter)
  have e: "\<forall>e \<in> set ?m. session_id (snd e) = fst e \<and> fst e \<noteq> []" using assms(1)
    by (auto simp: store_inv_def map_delete_def)
  show ?thesis
  proof (cases "activeSession this = Some k")
    case True
    show ?thesis
    proof (cases "getAllSessions ?t")
      case Nil
      then have "snd ` set ?m = {}" using getAllSessions_set[of ?t] by simp
      then have "?m = []" by simp
      moreover from assms(2) True Nil have "this' = ?t\<lparr>activeSession := None\<rparr>"
        by (auto simp: deleteSession_def Let_def split: if_splits)
      ultimately show ?thesis by (simp add: store_inv_def)
    next
      case (Cons s rest)
      have "s \<in> set (getAllSessions ?t)" using Cons by simp
      then have "s \<in> snd ` set ?m" using getAllSessions_set[of ?t] by simp
      then obtain x where x: "x \<in> set ?m" "snd x = s" by auto
      with e have "session_id s \<in> fst ` set ?m" by force
      moreover from assms(2) True Cons have "this' = ?t\<lparr>activeSession := Some (session_id s)\<rparr>"
        by (auto simp: deleteSession_def Let_def split: if_splits)
      ultimately show ?thesis using d e by (simp add: store_inv_def)
    qed
  next
    case False
    from assms(2) have h: "map_has k (sessions this)"
      by (auto simp: deleteSession_def split: if_splits)
    from assms(1) h obtain a where a: "activeSession this = Some a" "a \<in> fst ` set (sessions this)"
      by (cases "activeSession this") (auto simp: store_inv_def map_has_iff)
    with False have "a \<noteq> k" by simp
    with a have "a \<in> fst ` set ?m" by (auto simp: map_delete_def)
    moreover from assms(2) False have "this' = ?t"
      by (auto simp: deleteSession_def Let_def split: if_splits)
    ultimately show ?thesis using a d e by (simp add: store_inv_def)
  qed
qed

lemma inv_add_user:
  "store_inv this \<Longrightarrow> addUserMessage k content uuid clock this = Inr (msg, this') \<Longrightarrow> store_inv this'"
  by (auto simp: addUserMessage_def Let_def inv_push_message split: if_splits)

lemma inv_handle:
  assumes "store_inv this"
    and "handleMessage chat k content uuid clock uuid2 clock2 this = Inr (msg, this')"
  shows "store_inv this'"
proof (cases "addUserMessage k content uuid clock this")
  case (Inl err)
  with assms(2) show ?thesis by (simp add: handleMessage_def)
next
  case (Inr r)
  obtain um t1 where r: "r = (um, t1)" by (cases r)
  with Inr assms(1) have i: "store_inv t1" by (blast intro: inv_add_user)
  show ?thesis
  proof (cases "map_of (sessions t1) k")
    case None
    with Inr r assms(2) show ?thesis by (simp add: handleMessage_def)
  next
    case (Some session)
    show ?thesis
    proof (cases "chat session")
      case e: (Inl err)
      with Inr r Some assms(2) have "\<exists>m. this' = push_message k m t1"
        by (simp add: handleMessage_def Let_def) blast
      with i show ?thesis by (auto simp: inv_push_message)
    next
      case o: (Inr response)
      with Inr r Some assms(2) have "\<exists>m. this' = push_message k m t1"
        by (simp add: handleMessage_def Let_def) blast
      with i show ?thesis by (auto simp: inv_push_message)
    qed
  qed
qed

lemma inv_handle_code:
  assumes "store_inv this"
  shows "store_inv (snd (handleCodeGeneration generated k p uuid clock uuid2 clock2 this))"
proof (cases "map_has k (sessions this)")
  case False
  with assms show ?thesis by (simp add: handleCodeGeneration_def)
next
  case True
  show ?thesis
  proof (cases "addUserMessage k p uuid clock this")
    case (Inl err)
    with True assms show ?thesis by (simp add: handleCodeGeneration_def Let_def inv_push_message)
  next
    case (Inr r)
    obtain um t1 where r: "r = (um, t1)" by (cases r)
    with Inr assms have i: "store_inv t1" by (blast intro: inv_add_user)
    show ?thesis
    proof (cases generated)
      case e: (Inl err)
      with True Inr r i show ?thesis by (simp add: handleCodeGeneration_def Let_def inv_push_message)
    next
      case o: (Inr response)
      with True Inr r i show ?thesis by (simp add: handleCodeGeneration_def Let_def inv_push_message)
    qed
  qed
qed

lemma inv_first_start:
  "store_inv (loadSessions \<lparr>stored_chatSessions = None, stored_activeSession = None\<rparr> new_controller)"
  by (simp add: loadSessions_def new_controller_def getAllSessions_def store_inv_def)

lemma reachable_store_inv: "reachable_store this \<Longrightarrow> store_inv this"
proof (induction rule: reachable_store.induct)
  case first_start
  show ?case by (rule inv_first_start)
next
  case (restart this globalState)
  then show ?case by (simp add: save_load_roundtrip)
next
  case (create this uuid title_arg systemMessage_arg uuid2 clock)
  then show ?case by (simp add: inv_create)
next
  case (set_active this sessionId this')
  then show ?case by (blast intro: inv_set_active)
next
  case (update this sessionId updates uuid clock clock2 this')
  then show ?case by (blast intro: inv_update)
next
  case (delete this sessionId this')
  then show ?case by (blast intro: inv_delete)
next
  case (add_user this sessionId content uuid clock msg this')
  then show ?case by (blast intro: inv_add_user)
next
  case (handle this chat sessionId content uuid clock uuid2 clock2 msg this')
  then show ?case by (blast intro: inv_handle)
next
  case (handle_code this generated sessionId p uuid clock uuid2 clock2)
  then show ?case by (simp add: inv_handle_code)
next
  case (clear this sessionId clock this')
  then show ?case by (blast intro: inv_clear)
qed

text \<open>
  Claim C8. For every reachable state of the store and whatever \<^verbatim>\<open>globalState\<close> held
  before, saving the sessions and loading them into a new controller gives the same
  store: the same session identifiers with equal sessions and the same active session.
\<close>

theorem save_then_load_identity:
  assumes "reachable_store this"
  shows "loadSessions (saveSessions this globalState) new_controller = this \<and>
         map_of (sessions (loadSessions (saveSessions this globalState) new_controller))
           = map_of (sessions this) \<and>
         activeSession (loadSessions (saveSessions this globalState) new_controller)
           = activeSession this"
  using save_load_roundtrip[OF reachable_store_inv[OF assms]] by simp

text \<open>C8 for a store with two sessions created after the first start.\<close>

theorem save_then_load_identity_witness:
  "reachable_store two_sessions \<and>
   map fst (sessions two_sessions) = [''id-a'', ''id-b''] \<and>
   activeSession two_sessions = Some ''id-b'' \<and>
   loadSessions (saveSessions two_sessions empty_storage) new_controller = two_sessions"
proof -
  have r: "reachable_store two_sessions"
    unfolding two_sessions_def
    by (intro reachable_store.create reachable_store.first_start) simp_all
  have v: "map fst (sessions two_sessions) = [''id-a'', ''id-b'']"
    "activeSession two_sessions = Some ''id-b''"
    by (simp_all add: two_sessions_def createSession_def loadSessions_def new_controller_def
        getAllSessions_def Let_def)
  from save_then_load_identity[OF r, of empty_storage] r v show ?thesis by simp
qed

end
